theory Spec2Isabelle
  imports Complex_Main
begin

section \<open>Types of the relational-chain trainer\<close>

text \<open>
  The component \<^verbatim>\<open>src/src/RelationalChain.tsx\<close> is embedded function by function.
  JavaScript numbers that only ever hold integers in the component (grid coordinates,
  rotations, levels, counters, the score) are \<^typ>\<open>int\<close>; the stability, the multiplier
  and the countdown timer are \<^typ>\<open>real\<close>.
\<close>

datatype Direction = FRONT | BACK | LEFT | RIGHT | NORTH | SOUTH | EAST | WEST

datatype ProtocolType = DIRECT | INVERTED

datatype FrameType = RELATIVE | ABSOLUTE

record Vec =
  dx :: int
  dy :: int

definition GRID_SIZE :: int where
  "GRID_SIZE = 7"

section \<open>Logic engine: \<^verbatim>\<open>safeMod\<close>, \<^verbatim>\<open>getVector\<close>, \<^verbatim>\<open>getOpposite\<close>\<close>

text \<open>
  The remainder operator \<^verbatim>\<open>%\<close> of JavaScript truncates towards zero: the result has the
  sign of the dividend.

  A JavaScript number is an IEEE double. The model takes a rotation as an integer. For an
  integer rotation of magnitude at most \<open>2^53 - 270\<close> every operation of \<^verbatim>\<open>getVector\<close> (adding
  the offset of at most 270, the two remainders, adding 360) has an integer result below
  \<open>2^53\<close> in magnitude, which double arithmetic computes exactly, so there the model is the
  source. For larger rotations and for rotations that are not integers the source rounds,
  and the model does not follow it: \<open>exactRotation\<close> below marks the range, and every
  statement that depends on the arithmetic at a rotation other than 0, 90, 180 and 270
  assumes it.
\<close>

definition js_rem :: "int \<Rightarrow> int \<Rightarrow> int" where
  "js_rem n m = sgn n * (\<bar>n\<bar> mod \<bar>m\<bar>)"

definition safeMod :: "int \<Rightarrow> int \<Rightarrow> int" where
  "safeMod n m = js_rem (js_rem n m + m) m"

definition angleOffset :: "Direction \<Rightarrow> int" where
  "angleOffset d =
     (let a0 = 0;
          a1 = (if d = RIGHT then 90 else a0);
          a2 = (if d = BACK then 180 else a1);
          a3 = (if d = LEFT then 270 else a2)
      in a3)"

definition vectorOfAngle :: "int \<Rightarrow> Vec" where
  "vectorOfAngle finalAngle =
     (if finalAngle = 0 then \<lparr>dx = 0, dy = - 1\<rparr>
      else if finalAngle = 90 then \<lparr>dx = 1, dy = 0\<rparr>
      else if finalAngle = 180 then \<lparr>dx = 0, dy = 1\<rparr>
      else if finalAngle = 270 then \<lparr>dx = - 1, dy = 0\<rparr>
      else \<lparr>dx = 0, dy = 0\<rparr>)"

definition getVector :: "int \<Rightarrow> Direction \<Rightarrow> Vec" where
  "getVector rotation d =
     (if d = NORTH then \<lparr>dx = 0, dy = - 1\<rparr>
      else if d = SOUTH then \<lparr>dx = 0, dy = 1\<rparr>
      else if d = EAST then \<lparr>dx = 1, dy = 0\<rparr>
      else if d = WEST then \<lparr>dx = - 1, dy = 0\<rparr>
      else vectorOfAngle (safeMod (rotation + angleOffset d) 360))"

text \<open>
  The earlier variant of the component (\<^verbatim>\<open>src/unnamed/part_000\<close>) reduces the angle with
  the bare remainder operator instead of \<^verbatim>\<open>safeMod\<close>.
\<close>

definition getVector_legacy :: "int \<Rightarrow> Direction \<Rightarrow> Vec" where
  "getVector_legacy rotation d =
     (if d = NORTH then \<lparr>dx = 0, dy = - 1\<rparr>
      else if d = SOUTH then \<lparr>dx = 0, dy = 1\<rparr>
      else if d = EAST then \<lparr>dx = 1, dy = 0\<rparr>
      else if d = WEST then \<lparr>dx = - 1, dy = 0\<rparr>
      else vectorOfAngle (js_rem (rotation + angleOffset d) 360))"

definition getOpposite :: "Direction \<Rightarrow> Direction" where
  "getOpposite d =
     (if d = NORTH then SOUTH
      else if d = SOUTH then NORTH
      else if d = EAST then WEST
      else if d = WEST then EAST
      else if d = FRONT then BACK
      else if d = BACK then FRONT
      else if d = LEFT then RIGHT
      else LEFT)"

text \<open>Vocabulary of the geometry claims.\<close>

definition cardinalRotation :: "int \<Rightarrow> bool" where
  "cardinalRotation r = (r = 0 \<or> r = 90 \<or> r = 180 \<or> r = 270)"

definition exactRotation :: "int \<Rightarrow> bool" where
  "exactRotation r = (\<bar>r\<bar> \<le> 2 ^ 53 - 270)"

definition bodyFixed :: "Direction \<Rightarrow> bool" where
  "bodyFixed d = (d = FRONT \<or> d = BACK \<or> d = LEFT \<or> d = RIGHT)"

definition oppositeVec :: "Vec \<Rightarrow> Vec \<Rightarrow> bool" where
  "oppositeVec v w = (dx v = - dx w \<and> dy v = - dy w)"

definition unitVec :: "Vec \<Rightarrow> bool" where
  "unitVec v = ((\<bar>dx v\<bar> = 1 \<and> dy v = 0) \<or> (dx v = 0 \<and> \<bar>dy v\<bar> = 1))"

definition zeroVec :: "Vec \<Rightarrow> bool" where
  "zeroVec v = (dx v = 0 \<and> dy v = 0)"


section \<open>Level generator\<close>

text \<open>
  \<^verbatim>\<open>Math.random()\<close> is the only source of nondeterminism. The model reads the draws
  from a sequence \<open>rnd\<close> and threads the index of the next draw through every function,
  in the order in which the source calls \<^verbatim>\<open>Math.random()\<close> (the short-circuit
  \<^verbatim>\<open>&&\<close> draws nothing when its gate is closed). ECMAScript promises a draw in the
  half-open unit interval; \<open>unitDraws\<close> states this of a sequence. Products and
  comparisons of draws are taken in exact arithmetic; the floating-point product of a draw
  below 1 with 3, 4, 5 or 7 stays below that factor, so the floors range over the same
  indices.
\<close>

type_synonym rng = "nat \<Rightarrow> real"

definition unitDraws :: "rng \<Rightarrow> bool" where
  "unitDraws rnd = (\<forall>i. 0 \<le> rnd i \<and> rnd i < 1)"

text \<open>
  A step's \<^verbatim>\<open>id\<close> is either a rendering of a random draw
  (\<^verbatim>\<open>Math.random().toString(36).substr(2, 9)\<close>, kept as the draw itself) or a literal.
\<close>

datatype StepId = Generated real | Literal string

record CommandStep =
  dir :: Direction
  frame :: FrameType
  protocol :: ProtocolType
  idStr :: StepId
  displayColor :: string

definition COLORS_direct :: string where
  "COLORS_direct = ''#00ff9d''"

definition COLORS_inverted :: string where
  "COLORS_inverted = ''#ff3366''"

text \<open>The values \<^verbatim>\<open>generateLevel\<close> hands to the component state when it returns.\<close>

record Puzzle =
  newAnchor :: "int \<times> int"
  newRot :: int
  newChain :: "CommandStep list"
  finalX :: int
  finalY :: int

definition MAX_ATTEMPTS :: nat where
  "MAX_ATTEMPTS = 500"

definition chainLength :: "int \<Rightarrow> nat" where
  "chainLength level = (if level < 5 then 1 else if level < 10 then 2 else if level < 15 then 3 else 4)"

definition allowInversion :: "int \<Rightarrow> bool" where
  "allowInversion level = (level \<ge> 4)"

definition allowAbsolute :: "int \<Rightarrow> bool" where
  "allowAbsolute level = (level \<ge> 7)"

definition allowInterference :: "int \<Rightarrow> bool" where
  "allowInterference level = (level \<ge> 12)"

definition padding :: "nat \<Rightarrow> int" where
  "padding n = (if n > 1 then (if n > 3 then 2 else 1) else 0)"

definition relativeDirs :: "Direction list" where
  "relativeDirs = [FRONT, BACK, LEFT, RIGHT]"

definition absoluteDirs :: "Direction list" where
  "absoluteDirs = [NORTH, SOUTH, EAST, WEST]"

text \<open>\<^verbatim>\<open>Math.floor(Math.random() * n)\<close> for the draw \<open>r\<close>.\<close>

definition randomIndex :: "real \<Rightarrow> int \<Rightarrow> int" where
  "randomIndex r n = \<lfloor>r * of_int n\<rfloor>"

text \<open>
  One pass through the body of the \<^verbatim>\<open>for\<close> loop up to the \<^verbatim>\<open>push\<close>: the new step,
  its displacement, and the index of the next draw. The array reads are in range for
  every draw in the unit interval.
\<close>

definition genStep :: "rng \<Rightarrow> int \<Rightarrow> int \<Rightarrow> nat \<Rightarrow> CommandStep \<times> Vec \<times> nat" where
  "genStep rnd level rot i =
     (let (isAbsolute, i1) = (if allowAbsolute level then (rnd i > 6 / 10, Suc i) else (False, i));
          frame' = (if isAbsolute then ABSOLUTE else RELATIVE);
          rawDir = (if isAbsolute
                    then absoluteDirs ! nat (randomIndex (rnd i1) (int (length absoluteDirs)))
                    else relativeDirs ! nat (randomIndex (rnd i1) (int (length relativeDirs))));
          i2 = Suc i1;
          (inverted, i3) = (if allowInversion level then (rnd i2 > 6 / 10, Suc i2) else (False, i2));
          protocol' = (if inverted then INVERTED else DIRECT);
          logicDir = (if protocol' = INVERTED then getOpposite rawDir else rawDir);
          vec = getVector rot logicDir;
          color0 = (if protocol' = DIRECT then COLORS_direct else COLORS_inverted);
          (interfere, i4) = (if allowInterference level then (rnd i3 > 1 / 2, Suc i3) else (False, i3));
          (color, i5) = (if interfere
                         then ((if rnd i4 > 1 / 2 then COLORS_inverted else COLORS_direct), Suc i4)
                         else (color0, i4))
      in (\<lparr>dir = rawDir, frame = frame', protocol = protocol', idStr = Generated (rnd i5),
           displayColor = color\<rparr>, vec, Suc i5))"

text \<open>
  The \<^verbatim>\<open>for\<close> loop over the chain slots, with the number of slots still to fill. The
  result is \<^verbatim>\<open>pathFailed\<close>, the current position, the chain built so far and the index
  of the next draw; leaving the grid sets \<^verbatim>\<open>pathFailed\<close> and breaks.
\<close>

fun buildChain :: "rng \<Rightarrow> int \<Rightarrow> int \<Rightarrow> nat \<Rightarrow> int \<Rightarrow> int \<Rightarrow> CommandStep list \<Rightarrow> nat
    \<Rightarrow> bool \<times> int \<times> int \<times> CommandStep list \<times> nat" where
  "buildChain rnd level rot 0 currentX currentY acc i = (False, currentX, currentY, acc, i)"
| "buildChain rnd level rot (Suc slots) currentX currentY acc i =
     (case genStep rnd level rot i of (st, vec, i') \<Rightarrow>
        (let currentX' = currentX + dx vec;
             currentY' = currentY + dy vec;
             acc' = acc @ [st]
         in if currentX' < 0 \<or> currentX' \<ge> GRID_SIZE \<or> currentY' < 0 \<or> currentY' \<ge> GRID_SIZE
            then (True, currentX', currentY', acc', i')
            else buildChain rnd level rot slots currentX' currentY' acc' i'))"

text \<open>
  One pass through the body of the \<^verbatim>\<open>while\<close> loop: the accepted candidate, or
  \<open>None\<close> when the candidate is rejected, and the index of the next draw.
\<close>

definition attempt :: "rng \<Rightarrow> int \<Rightarrow> nat \<Rightarrow> Puzzle option \<times> nat" where
  "attempt rnd level i =
     (let pad = padding (chainLength level);
          safeSize = GRID_SIZE - pad * 2;
          ax = randomIndex (rnd i) safeSize + pad;
          ay = randomIndex (rnd (Suc i)) safeSize + pad;
          rot = randomIndex (rnd (Suc (Suc i))) 4 * 90
      in case buildChain rnd level rot (chainLength level) ax ay [] (Suc (Suc (Suc i))) of
           (pathFailed, currentX, currentY, ch, i') \<Rightarrow>
             (if \<not> pathFailed \<and> (currentX \<noteq> ax \<or> currentY \<noteq> ay)
              then (Some \<lparr>newAnchor = (ax, ay), newRot = rot, newChain = ch,
                          finalX = currentX, finalY = currentY\<rparr>, i')
              else (None, i')))"

text \<open>
  The \<^verbatim>\<open>while (!valid && attempts < MAX_ATTEMPTS)\<close> loop, entered with the number of
  attempts made so far. It returns the accepted candidate (\<open>None\<close> when \<^verbatim>\<open>valid\<close> is
  still false at the exit), the final value of \<^verbatim>\<open>attempts\<close> and the index of the next
  draw.
\<close>

function searchLoop :: "rng \<Rightarrow> int \<Rightarrow> nat \<Rightarrow> nat \<Rightarrow> Puzzle option \<times> nat \<times> nat" where
  "searchLoop rnd level tries i =
     (if tries < MAX_ATTEMPTS
      then (let r = attempt rnd level i
            in if fst r = None then searchLoop rnd level (Suc tries) (snd r)
               else (fst r, Suc tries, snd r))
      else (None, tries, i))"
  by pat_completeness auto
termination
  by (relation "measure (\<lambda>(rnd, level, tries, i). MAX_ATTEMPTS - tries)") auto

definition failsafe :: Puzzle where
  "failsafe =
     \<lparr>newAnchor = (3, 3), newRot = 0,
      newChain = [\<lparr>dir = NORTH, frame = ABSOLUTE, protocol = DIRECT, idStr = Literal ''failsafe'',
                   displayColor = COLORS_direct\<rparr>],
      finalX = 3, finalY = 2\<rparr>"

text \<open>
  The search together with the \<^verbatim>\<open>if (!valid)\<close> block after it: the puzzle that
  \<^verbatim>\<open>generateLevel\<close> installs, the number of attempts it made and the index of the next
  draw.
\<close>

definition generatePuzzle :: "rng \<Rightarrow> int \<Rightarrow> nat \<Rightarrow> Puzzle \<times> nat \<times> nat" where
  "generatePuzzle rnd level i =
     (case searchLoop rnd level 0 i of
        (found, tries, i') \<Rightarrow> ((case found of None \<Rightarrow> failsafe | Some p \<Rightarrow> p), tries, i'))"

text \<open>Vocabulary of the generator claims: the displacement an instruction resolves to, and
  the positions reached after each instruction of a chain.\<close>

definition resolveStep :: "int \<Rightarrow> CommandStep \<Rightarrow> Vec" where
  "resolveStep rot st =
     getVector rot (if protocol st = INVERTED then getOpposite (dir st) else dir st)"

fun prefixPositions :: "int \<Rightarrow> int \<times> int \<Rightarrow> CommandStep list \<Rightarrow> (int \<times> int) list" where
  "prefixPositions rot pos [] = []"
| "prefixPositions rot pos (st # sts) =
     (let pos' = (fst pos + dx (resolveStep rot st), snd pos + dy (resolveStep rot st))
      in pos' # prefixPositions rot pos' sts)"

definition inGrid :: "int \<times> int \<Rightarrow> bool" where
  "inGrid pos = (0 \<le> fst pos \<and> fst pos < GRID_SIZE \<and> 0 \<le> snd pos \<and> snd pos < GRID_SIZE)"


section \<open>Game state and analytics\<close>

datatype Status = Idle | Playing | Gameover | Level_up | Level_down | Success_anim | Analytics

datatype Outcome = Win | Loss

record MetricData =
  attempts :: int
  failures :: int

text \<open>A session entry \<^verbatim>\<open>{timestamp, maxLevel, score}\<close>.\<close>

record SessionEntry =
  timestamp :: int
  sessionMaxLevel :: int
  sessionScore :: int

record AnalyticsState =
  tags :: "string \<Rightarrow> MetricData option"
  sessions :: "SessionEntry list"

record GameState =
  status :: Status
  currentLevel :: int
  stability :: real
  maxLevel :: int
  score :: int
  multiplier :: real
  streak :: int
  soundEnabled :: bool
  isPracticeMode :: bool
  analytics :: AnalyticsState
  sessionCorrect :: int
  sessionTotal :: int

text \<open>
  The callbacks that the handlers leave with \<^verbatim>\<open>setTimeout\<close> and
  \<^verbatim>\<open>requestAnimationFrame\<close>, each with the values its closure captured
  (\<^verbatim>\<open>nextStatus\<close>, \<^verbatim>\<open>nextLevel\<close>, \<^verbatim>\<open>newStability\<close>).
\<close>

datatype Timeout =
    SuccessHold Status int
  | LevelUpHold int
  | LevelUpFrame
  | SuccessFrame int
  | FailureHold Status int real
  | LevelDownHold int
  | LevelDownFrame
  | FailureFrame int real

text \<open>
  The state of the component: the \<^verbatim>\<open>useState\<close> cells and \<^verbatim>\<open>useRef\<close> cells, the index
  of the next random draw, and the callbacks waiting in the browser's timer queue.
\<close>

record World =
  game :: GameState
  timer :: real
  anchorPos :: "int \<times> int"
  anchorRotation :: int
  chain :: "CommandStep list"
  targetPos :: "(int \<times> int) option"
  feedbackCell :: "(int \<times> int \<times> Outcome) option"
  failureHandled :: bool
  drawIndex :: nat
  scheduled :: "Timeout list"

definition initialGame :: GameState where
  "initialGame =
     \<lparr>status = Idle, currentLevel = 1, stability = 50, maxLevel = 1, score = 0, multiplier = 1,
      streak = 0, soundEnabled = True, isPracticeMode = False,
      analytics = \<lparr>tags = (\<lambda>k. None), sessions = []\<rparr>, sessionCorrect = 0, sessionTotal = 0\<rparr>"

definition initialWorld :: World where
  "initialWorld =
     \<lparr>game = initialGame, timer = 100, anchorPos = (3, 3), anchorRotation = 0, chain = [],
      targetPos = None, feedbackCell = None, failureHandled = False, drawIndex = 0,
      scheduled = []\<rparr>"

subsection \<open>Analytics engine\<close>

definition protocolName :: "ProtocolType \<Rightarrow> string" where
  "protocolName p = (case p of DIRECT \<Rightarrow> ''DIRECT'' | INVERTED \<Rightarrow> ''INVERTED'')"

definition frameName :: "FrameType \<Rightarrow> string" where
  "frameName f = (case f of RELATIVE \<Rightarrow> ''RELATIVE'' | ABSOLUTE \<Rightarrow> ''ABSOLUTE'')"

definition directionName :: "Direction \<Rightarrow> string" where
  "directionName d =
     (case d of FRONT \<Rightarrow> ''FRONT'' | BACK \<Rightarrow> ''BACK'' | LEFT \<Rightarrow> ''LEFT'' | RIGHT \<Rightarrow> ''RIGHT''
              | NORTH \<Rightarrow> ''NORTH'' | SOUTH \<Rightarrow> ''SOUTH'' | EAST \<Rightarrow> ''EAST'' | WEST \<Rightarrow> ''WEST'')"

definition protoKey :: "CommandStep \<Rightarrow> string" where
  "protoKey st = protocolName (protocol st)"

definition frameKey :: "CommandStep \<Rightarrow> string" where
  "frameKey st = frameName (frame st)"

definition complexKey :: "CommandStep \<Rightarrow> string" where
  "complexKey st = protocolName (protocol st) @ '' '' @ directionName (dir st)"

text \<open>The three statements that count one key: create the entry if it is missing,
  increment \<^verbatim>\<open>attempts\<close>, and increment \<^verbatim>\<open>failures\<close> on a loss.\<close>

definition bumpTag :: "Outcome \<Rightarrow> string \<Rightarrow> (string \<Rightarrow> MetricData option) \<Rightarrow> (string \<Rightarrow> MetricData option)" where
  "bumpTag result k newTags =
     (let m0 = (case newTags k of None \<Rightarrow> \<lparr>attempts = 0, failures = 0\<rparr> | Some m \<Rightarrow> m);
          m1 = m0\<lparr>attempts := attempts m0 + 1\<rparr>;
          m2 = (if result = Loss then m1\<lparr>failures := failures m1 + 1\<rparr> else m1)
      in newTags(k \<mapsto> m2))"

definition recordStep :: "Outcome \<Rightarrow> (string \<Rightarrow> MetricData option) \<Rightarrow> CommandStep \<Rightarrow> (string \<Rightarrow> MetricData option)" where
  "recordStep result newTags st =
     bumpTag result (complexKey st) (bumpTag result (frameKey st) (bumpTag result (protoKey st) newTags))"

definition recordChain :: "Outcome \<Rightarrow> CommandStep list \<Rightarrow> (string \<Rightarrow> MetricData option) \<Rightarrow> (string \<Rightarrow> MetricData option)" where
  "recordChain result ch newTags = foldl (recordStep result) newTags ch"

definition updateAnalytics :: "Outcome \<Rightarrow> World \<Rightarrow> World" where
  "updateAnalytics result w =
     (if isPracticeMode (game w) then w
      else w\<lparr>game := (game w)\<lparr>analytics :=
                (analytics (game w))\<lparr>tags := recordChain result (chain w) (tags (analytics (game w)))\<rparr>\<rparr>\<rparr>)"

text \<open>\<^verbatim>\<open>recordSession\<close>; the argument \<open>now\<close> is the value of \<^verbatim>\<open>Date.now()\<close>.\<close>

definition recordSession :: "int \<Rightarrow> World \<Rightarrow> World" where
  "recordSession now w =
     (if score (game w) > 100 \<and> \<not> isPracticeMode (game w)
      then w\<lparr>game := (game w)\<lparr>analytics :=
                (analytics (game w))\<lparr>sessions := sessions (analytics (game w)) @
                   [\<lparr>timestamp = now, sessionMaxLevel = currentLevel (game w),
                     sessionScore = score (game w)\<rparr>]\<rparr>\<rparr>\<rparr>
      else w)"

text \<open>Counters read off a tag table, a missing entry counting as zero.\<close>

definition attemptsOf :: "(string \<Rightarrow> MetricData option) \<Rightarrow> string \<Rightarrow> int" where
  "attemptsOf t k = (case t k of None \<Rightarrow> 0 | Some m \<Rightarrow> attempts m)"

definition failuresOf :: "(string \<Rightarrow> MetricData option) \<Rightarrow> string \<Rightarrow> int" where
  "failuresOf t k = (case t k of None \<Rightarrow> 0 | Some m \<Rightarrow> failures m)"

text \<open>How often a key is among the three keys of the steps of a chain.\<close>

definition keyHits :: "CommandStep list \<Rightarrow> string \<Rightarrow> int" where
  "keyHits ch k =
     int (length (filter (\<lambda>st. protoKey st = k) ch)) +
     int (length (filter (\<lambda>st. frameKey st = k) ch)) +
     int (length (filter (\<lambda>st. complexKey st = k) ch))"


section \<open>Progression state machine\<close>

text \<open>
  Each handler is applied to the state it was rendered with: the \<^verbatim>\<open>game\<close>, \<^verbatim>\<open>timer\<close> and
  \<^verbatim>\<open>chain\<close> of its closure are those of the current \<open>World\<close>, and the functional
  updates \<^verbatim>\<open>setGame(prev => ...)\<close> are applied in the order in which they are queued. Sound is
  left out.
\<close>

definition generateLevel :: "rng \<Rightarrow> int \<Rightarrow> World \<Rightarrow> World" where
  "generateLevel rnd level w =
     (case generatePuzzle rnd level (drawIndex w) of
        (p, tries, i') \<Rightarrow>
          w\<lparr>anchorPos := newAnchor p, anchorRotation := newRot p, chain := newChain p,
            targetPos := Some (finalX p, finalY p), feedbackCell := None, timer := 100,
            drawIndex := i'\<rparr>)"

text \<open>\<^verbatim>\<open>points\<close> of \<^verbatim>\<open>handleSuccess\<close>.\<close>

definition points :: "World \<Rightarrow> real" where
  "points w =
     (100 + of_int \<lfloor>timer w\<rfloor>) * multiplier (game w) + of_int (currentLevel (game w) * 50)"

text \<open>The values \<^verbatim>\<open>(nextLevel, newStability, nextStatus)\<close> that \<^verbatim>\<open>handleSuccess\<close> computes
  from its closure.\<close>

definition successOutcome :: "GameState \<Rightarrow> int \<times> real \<times> Status" where
  "successOutcome g =
     (let stabilityGain = (if isPracticeMode g then 0 else 15);
          newStability = stability g + stabilityGain
      in if \<not> isPracticeMode g \<and> newStability \<ge> 100 then (currentLevel g + 1, 50, Level_up)
         else if newStability > 100 then (currentLevel g, 100, Playing)
         else (currentLevel g, newStability, Playing))"

definition handleSuccess :: "World \<Rightarrow> World" where
  "handleSuccess w =
     (case successOutcome (game w) of
        (nextLevel, newStability, nextStatus) \<Rightarrow>
          (let w1 = updateAnalytics Win w;
               prev = game w1
           in w1\<lparr>game := prev\<lparr>status := Success_anim,
                    score := (if isPracticeMode prev then score prev
                              else \<lfloor>of_int (score prev) + points w\<rfloor>),
                    stability := newStability,
                    streak := streak prev + 1,
                    multiplier := min (multiplier prev + 1 / 2) 5,
                    sessionCorrect := (if isPracticeMode prev then sessionCorrect prev
                                       else sessionCorrect prev + 1),
                    sessionTotal := (if isPracticeMode prev then sessionTotal prev
                                     else sessionTotal prev + 1)\<rparr>,
                 scheduled := scheduled w1 @ [SuccessHold nextStatus nextLevel]\<rparr>))"

text \<open>The values \<^verbatim>\<open>(nextLevel, newStability, nextStatus)\<close> that \<^verbatim>\<open>handleFailure\<close> computes
  from its closure.\<close>

definition failureOutcome :: "GameState \<Rightarrow> int \<times> real \<times> Status" where
  "failureOutcome g =
     (let stabilityLoss = (if isPracticeMode g then 0 else 30);
          newStability = stability g - stabilityLoss
      in if \<not> isPracticeMode g \<and> newStability \<le> 0
         then (if currentLevel g > 1 then (currentLevel g - 1, 50, Level_down)
               else (currentLevel g, 20, Playing))
         else if newStability < 0 then (currentLevel g, 0, Playing)
         else (currentLevel g, newStability, Playing))"

definition handleFailure :: "World \<Rightarrow> World" where
  "handleFailure w =
     (case failureOutcome (game w) of
        (nextLevel, newStability, nextStatus) \<Rightarrow>
          (let w1 = updateAnalytics Loss w;
               prev = game w1
           in w1\<lparr>game := prev\<lparr>status := Success_anim, multiplier := 1, streak := 0,
                    stability := newStability,
                    sessionTotal := (if isPracticeMode prev then sessionTotal prev
                                     else sessionTotal prev + 1)\<rparr>,
                 scheduled := scheduled w1 @ [FailureHold nextStatus nextLevel newStability]\<rparr>))"

definition handleCellClick :: "int \<Rightarrow> int \<Rightarrow> World \<Rightarrow> World" where
  "handleCellClick cx cy w =
     (if status (game w) \<noteq> Playing then w
      else if targetPos w = Some (cx, cy)
      then handleSuccess (w\<lparr>feedbackCell := Some (cx, cy, Win)\<rparr>)
      else handleFailure (w\<lparr>feedbackCell := Some (cx, cy, Loss)\<rparr>))"

text \<open>
  The callbacks of the timer queue. \<^verbatim>\<open>SuccessHold\<close> and \<^verbatim>\<open>FailureHold\<close> are the outer
  \<^verbatim>\<open>setTimeout\<close> of the two handlers, \<^verbatim>\<open>LevelUpHold\<close> and \<^verbatim>\<open>LevelDownHold\<close> the inner ones,
  and the four \<^verbatim>\<open>Frame\<close> callbacks are the \<^verbatim>\<open>requestAnimationFrame\<close> updates.
\<close>

definition fire :: "rng \<Rightarrow> Timeout \<Rightarrow> World \<Rightarrow> World" where
  "fire rnd t w =
     (case t of
        SuccessHold nextStatus nextLevel \<Rightarrow>
          (if nextStatus = Level_up
           then w\<lparr>game := (game w)\<lparr>status := Level_up, currentLevel := nextLevel,
                     maxLevel := max (maxLevel (game w)) nextLevel\<rparr>,
                  scheduled := scheduled w @ [LevelUpHold nextLevel]\<rparr>
           else (generateLevel rnd nextLevel w)\<lparr>scheduled := scheduled w @ [SuccessFrame nextLevel]\<rparr>)
      | LevelUpHold nextLevel \<Rightarrow>
          (generateLevel rnd nextLevel w)\<lparr>scheduled := scheduled w @ [LevelUpFrame]\<rparr>
      | LevelUpFrame \<Rightarrow> w\<lparr>game := (game w)\<lparr>status := Playing\<rparr>\<rparr>
      | SuccessFrame nextLevel \<Rightarrow>
          w\<lparr>game := (game w)\<lparr>status := Playing, currentLevel := nextLevel,
                maxLevel := max (maxLevel (game w)) nextLevel\<rparr>\<rparr>
      | FailureHold nextStatus nextLevel newStability \<Rightarrow>
          (if nextStatus = Level_down
           then w\<lparr>game := (game w)\<lparr>status := Level_down, currentLevel := nextLevel\<rparr>,
                  scheduled := scheduled w @ [LevelDownHold nextLevel]\<rparr>
           else (generateLevel rnd nextLevel w)\<lparr>scheduled :=
                   scheduled w @ [FailureFrame nextLevel newStability]\<rparr>)
      | LevelDownHold nextLevel \<Rightarrow>
          (generateLevel rnd nextLevel w)\<lparr>scheduled := scheduled w @ [LevelDownFrame]\<rparr>
      | LevelDownFrame \<Rightarrow> w\<lparr>game := (game w)\<lparr>status := Playing, stability := 50\<rparr>\<rparr>
      | FailureFrame nextLevel newStability \<Rightarrow>
          w\<lparr>game := (game w)\<lparr>status := Playing, currentLevel := nextLevel,
                stability := newStability\<rparr>\<rparr>)"

text \<open>\<^verbatim>\<open>startGame\<close>; the stray field \<^verbatim>\<open>history\<close> that it writes is not a field of
  \<^verbatim>\<open>GameState\<close> and is left out.\<close>

definition startGame :: "rng \<Rightarrow> World \<Rightarrow> World" where
  "startGame rnd w =
     (let w1 = generateLevel rnd (currentLevel (game w)) w
      in w1\<lparr>game := (game w1)\<lparr>status := Playing, multiplier := 1, streak := 0,
                sessionCorrect := 0, sessionTotal := 0\<rparr>\<rparr>)"

definition stopGame :: "int \<Rightarrow> World \<Rightarrow> World" where
  "stopGame now w =
     (let w1 = recordSession now w
      in w1\<lparr>game := (game w1)\<lparr>status := Gameover\<rparr>\<rparr>)"

definition togglePracticeMode :: "rng \<Rightarrow> World \<Rightarrow> World" where
  "togglePracticeMode rnd w =
     (let w1 = w\<lparr>game := (game w)\<lparr>isPracticeMode := \<not> isPracticeMode (game w)\<rparr>\<rparr>
      in if status (game w) = Playing then generateLevel rnd (currentLevel (game w)) w1 else w1)"

text \<open>\<^verbatim>\<open>resetProgress\<close>; the argument is the answer to \<^verbatim>\<open>window.confirm\<close>.\<close>

definition resetProgress :: "bool \<Rightarrow> World \<Rightarrow> World" where
  "resetProgress confirmed w =
     (if confirmed
      then w\<lparr>game := (game w)\<lparr>currentLevel := 1, maxLevel := maxLevel (game w), stability := 50,
                score := 0, analytics := \<lparr>tags = (\<lambda>k. None), sessions = []\<rparr>,
                sessionCorrect := 0, sessionTotal := 0, status := Idle\<rparr>\<rparr>
      else w)"

subsection \<open>Manual level entry\<close>

text \<open>
  \<^verbatim>\<open>parseInt\<close> is a builtin of the language, modelled after its definition in
  ECMAScript for a string of one-byte characters and no radix argument: white space (tab,
  line feed, vertical tab, form feed, carriage return, space, no-break space) is skipped,
  a sign is read, the prefix \<^verbatim>\<open>0x\<close> or \<^verbatim>\<open>0X\<close> selects radix 16, and the longest run of
  digits that follows is the value; whatever comes after that run is ignored. \<open>None\<close> is
  \<^verbatim>\<open>NaN\<close>.
\<close>

definition isWhiteSpace :: "char \<Rightarrow> bool" where
  "isWhiteSpace c = (of_char c \<in> {9, 10, 11, 12, 13, 32, 160 :: nat})"

definition digitValue :: "char \<Rightarrow> nat option" where
  "digitValue c =
     (let n = (of_char c :: nat)
      in if 48 \<le> n \<and> n \<le> 57 then Some (n - 48)
         else if 97 \<le> n \<and> n \<le> 122 then Some (n - 87)
         else if 65 \<le> n \<and> n \<le> 90 then Some (n - 55)
         else None)"

fun radixDigits :: "nat \<Rightarrow> string \<Rightarrow> nat list" where
  "radixDigits radix [] = []"
| "radixDigits radix (c # cs) =
     (case digitValue c of
        None \<Rightarrow> []
      | Some v \<Rightarrow> (if v < radix then v # radixDigits radix cs else []))"

definition parseInt :: "string \<Rightarrow> int option" where
  "parseInt inputString =
     (let s1 = dropWhile isWhiteSpace inputString;
          (sign, s2) = (case s1 of
                          [] \<Rightarrow> (1, s1)
                        | c # cs \<Rightarrow> (if c = CHR ''-'' then (- 1, cs)
                                    else if c = CHR ''+'' then (1, cs) else (1, s1)));
          (radix, s3) = (if take 2 s2 = ''0x'' \<or> take 2 s2 = ''0X'' then (16, drop 2 s2)
                         else (10, s2));
          ds = radixDigits radix s3
      in if ds = [] then None
         else Some (sign * int (foldl (\<lambda>acc v. acc * radix + v) 0 ds)))"

text \<open>\<^verbatim>\<open>manualSetLevel\<close>; the argument is what \<^verbatim>\<open>prompt\<close> returned, \<open>None\<close> for
  \<^verbatim>\<open>null\<close>.\<close>

definition manualSetLevel :: "string option \<Rightarrow> World \<Rightarrow> World" where
  "manualSetLevel input w =
     (case input of
        None \<Rightarrow> w
      | Some inputString \<Rightarrow>
          (if inputString = [] then w
           else (case parseInt inputString of
                   None \<Rightarrow> w
                 | Some lvl \<Rightarrow>
                     (if lvl > 0 \<and> lvl < 100
                      then w\<lparr>game := (game w)\<lparr>currentLevel := lvl,
                                maxLevel := max (maxLevel (game w)) lvl, score := 0\<rparr>\<rparr>
                      else w))))"

subsection \<open>Game loop\<close>

definition decay :: "int \<Rightarrow> real" where
  "decay level = 1 / 4 + of_int level * (4 / 100)"

text \<open>
  The callback of \<^verbatim>\<open>setInterval\<close>: the updater handed to \<^verbatim>\<open>setTimer\<close>, with the guard on
  the \<^verbatim>\<open>failureHandled\<close> ref.
\<close>

definition timerTick :: "World \<Rightarrow> World" where
  "timerTick w =
     (if timer w \<le> 0
      then (let w1 = (if \<not> failureHandled w then handleFailure (w\<lparr>failureHandled := True\<rparr>) else w)
            in w1\<lparr>timer := 0\<rparr>)
      else w\<lparr>timer := timer w - decay (currentLevel (game w))\<rparr>)"

text \<open>The effect on \<^verbatim>\<open>[game.status]\<close>: it runs when the status has changed, and clears the
  ref when the new status is \<^verbatim>\<open>playing\<close>.\<close>

definition statusEffect :: "Status \<Rightarrow> World \<Rightarrow> World" where
  "statusEffect before w =
     (if status (game w) \<noteq> before \<and> status (game w) = Playing
      then w\<lparr>failureHandled := False\<rparr> else w)"

subsection \<open>Events\<close>

text \<open>
  The events the component reacts to. A button is an event only while it is rendered and
  enabled, and the interval ticks only while the status is \<^verbatim>\<open>playing\<close> outside practice
  mode. \<open>FireTimeout k\<close> runs the \<open>k\<close>-th waiting callback.
\<close>

datatype Event =
    CellClick int int
  | TimerTick
  | StartGame
  | StopGame int
  | TogglePractice
  | FireTimeout nat
  | ManualSetLevel "string option"
  | ResetProgress bool
  | ShowAnalytics
  | ReturnToMenu

definition dispatch :: "rng \<Rightarrow> Event \<Rightarrow> World \<Rightarrow> World" where
  "dispatch rnd e w =
     (case e of
        CellClick cx cy \<Rightarrow> handleCellClick cx cy w
      | TimerTick \<Rightarrow>
          (if status (game w) = Playing \<and> \<not> isPracticeMode (game w) then timerTick w else w)
      | StartGame \<Rightarrow>
          (if status (game w) = Idle \<or> status (game w) = Gameover then startGame rnd w else w)
      | StopGame now \<Rightarrow> (if status (game w) = Playing then stopGame now w else w)
      | TogglePractice \<Rightarrow> togglePracticeMode rnd w
      | FireTimeout k \<Rightarrow>
          (if k < length (scheduled w)
           then fire rnd (scheduled w ! k)
                  (w\<lparr>scheduled := take k (scheduled w) @ drop (Suc k) (scheduled w)\<rparr>)
           else w)
      | ManualSetLevel input \<Rightarrow> (if status (game w) = Idle then manualSetLevel input w else w)
      | ResetProgress confirmed \<Rightarrow> resetProgress confirmed w
      | ShowAnalytics \<Rightarrow>
          (if status (game w) = Idle then w\<lparr>game := (game w)\<lparr>status := Analytics\<rparr>\<rparr> else w)
      | ReturnToMenu \<Rightarrow>
          (if status (game w) = Gameover \<or> status (game w) = Analytics
           then w\<lparr>game := (game w)\<lparr>status := Idle\<rparr>\<rparr> else w))"

definition step :: "rng \<Rightarrow> World \<Rightarrow> Event \<Rightarrow> World" where
  "step rnd w e = statusEffect (status (game w)) (dispatch rnd e w)"

definition run :: "rng \<Rightarrow> World \<Rightarrow> Event list \<Rightarrow> World" where
  "run rnd w es = foldl (step rnd) w es"


section \<open>Vocabulary of the claims\<close>

text \<open>
  A puzzle is valid when its target is not its anchor, the anchor and every position
  reached after an instruction of the chain lie in the grid, and the target is the position
  reached after the last instruction.
\<close>

definition validPuzzle :: "Puzzle \<Rightarrow> bool" where
  "validPuzzle p =
     ((finalX p, finalY p) \<noteq> newAnchor p \<and>
      inGrid (newAnchor p) \<and>
      list_all inGrid (prefixPositions (newRot p) (newAnchor p) (newChain p)) \<and>
      (finalX p, finalY p) = last (newAnchor p # prefixPositions (newRot p) (newAnchor p) (newChain p)))"


text \<open>
  The bounds of the progression claims, on the game state and on the values that the
  waiting callbacks will write into it.
\<close>

definition gameInv :: "GameState \<Rightarrow> bool" where
  "gameInv g =
     (0 \<le> stability g \<and> stability g \<le> 100 \<and> 1 \<le> multiplier g \<and> multiplier g \<le> 5 \<and>
      1 \<le> currentLevel g)"

definition timeoutInv :: "Timeout \<Rightarrow> bool" where
  "timeoutInv t =
     (case t of
        SuccessHold nextStatus nextLevel \<Rightarrow> 1 \<le> nextLevel
      | LevelUpHold nextLevel \<Rightarrow> 1 \<le> nextLevel
      | LevelUpFrame \<Rightarrow> True
      | SuccessFrame nextLevel \<Rightarrow> 1 \<le> nextLevel
      | FailureHold nextStatus nextLevel newStability \<Rightarrow>
          1 \<le> nextLevel \<and> 0 \<le> newStability \<and> newStability \<le> 100
      | LevelDownHold nextLevel \<Rightarrow> 1 \<le> nextLevel
      | LevelDownFrame \<Rightarrow> True
      | FailureFrame nextLevel newStability \<Rightarrow>
          1 \<le> nextLevel \<and> 0 \<le> newStability \<and> newStability \<le> 100)"

definition worldInv :: "World \<Rightarrow> bool" where
  "worldInv w = (gameInv (game w) \<and> list_all timeoutInv (scheduled w))"

text \<open>
  A round: the click on the target cell (a win) or on another cell (a loss), followed by
  the callbacks the handler leaves behind, at most three in a row.
\<close>

definition wrongCell :: "World \<Rightarrow> int \<times> int" where
  "wrongCell w = (if targetPos w = Some (0, 0) then (1, 0) else (0, 0))"

definition roundEvents :: "World \<Rightarrow> Outcome \<Rightarrow> Event list" where
  "roundEvents w result =
     (case result of
        Win \<Rightarrow> (case targetPos w of Some (cx, cy) \<Rightarrow> [CellClick cx cy] | None \<Rightarrow> [])
      | Loss \<Rightarrow> [CellClick (fst (wrongCell w)) (snd (wrongCell w))])
     @ [FireTimeout 0, FireTimeout 0, FireTimeout 0]"

definition playRound :: "rng \<Rightarrow> World \<Rightarrow> Outcome \<Rightarrow> World" where
  "playRound rnd w result = run rnd w (roundEvents w result)"

definition playRounds :: "rng \<Rightarrow> World \<Rightarrow> Outcome list \<Rightarrow> World" where
  "playRounds rnd w results = foldl (playRound rnd) w results"

text \<open>A world in the middle of a round, for the examples: the given game state with a
  puzzle installed whose target is the cell (3, 2).\<close>

definition playingWorld :: "GameState \<Rightarrow> real \<Rightarrow> World" where
  "playingWorld g t =
     initialWorld\<lparr>game := g\<lparr>status := Playing\<rparr>, timer := t, chain := newChain failsafe,
                  targetPos := Some (3, 2)\<rparr>"

definition practiceReady :: "World \<Rightarrow> bool" where
  "practiceReady w =
     (isPracticeMode (game w) \<and> status (game w) = Playing \<and> scheduled w = [] \<and>
      0 \<le> stability (game w) \<and> stability (game w) \<le> 100)"

text \<open>Worlds for the examples.\<close>

definition levelThreeWorld :: World where
  "levelThreeWorld = playingWorld (initialGame\<lparr>currentLevel := 3\<rparr>) 80"

definition fractionalRewardWorld :: World where
  "fractionalRewardWorld = playingWorld (initialGame\<lparr>stability := 95, multiplier := 5 / 2\<rparr>) 81"

definition practiceWorld :: World where
  "practiceWorld = playingWorld (initialGame\<lparr>isPracticeMode := True\<rparr>) 100"

definition expiredWorld :: World where
  "expiredWorld = playingWorld initialGame 0"

text \<open>The decimal numeral of an integer, as typed into the prompt.\<close>

definition digitChar :: "nat \<Rightarrow> char" where
  "digitChar d = char_of (48 + d)"

function natString :: "nat \<Rightarrow> string" where
  "natString n = (if n < 10 then [digitChar n] else natString (n div 10) @ [digitChar (n mod 10)])"
  by pat_completeness auto
termination
  by (relation "measure (\<lambda>n. n)") auto

definition intString :: "int \<Rightarrow> string" where
  "intString k = (if k < 0 then CHR ''-'' # natString (nat (- k)) else natString (nat k))"

declare natString.simps [simp del]

section \<open>Properties of the logic engine\<close>

lemma js_rem_nonneg: "0 \<le> n \<Longrightarrow> js_rem n m = n mod \<bar>m\<bar>"
  unfolding js_rem_def by (cases "n = 0") (simp_all add: sgn_if)

lemma js_rem_neg: "n < 0 \<Longrightarrow> js_rem n m = - ((- n) mod \<bar>m\<bar>)"
  unfolding js_rem_def by (simp add: sgn_if)

text \<open>On the modulus 360, \<^verbatim>\<open>safeMod\<close> is the mathematical remainder, which is never
  negative.\<close>

lemma safeMod_360: "safeMod n 360 = n mod 360"
proof (cases "0 \<le> n")
  case True
  then have "js_rem n 360 = n mod 360" by (simp add: js_rem_nonneg)
  moreover have "0 \<le> n mod 360 + 360" by (simp add: add_nonneg_nonneg)
  ultimately show ?thesis by (simp add: safeMod_def js_rem_nonneg)
next
  case False
  then have r: "js_rem n 360 = - ((- n) mod 360)" by (simp add: js_rem_neg)
  have "(- n) mod 360 < 360" by simp
  then have "0 \<le> - ((- n) mod 360) + 360" by linarith
  then have "safeMod n 360 = (- ((- n) mod 360) + 360) mod 360"
    by (simp add: safeMod_def r js_rem_nonneg)
  also have "\<dots> = (- ((- n) mod 360)) mod 360" by simp
  also have "\<dots> = (- (- n)) mod 360" by (simp only: mod_minus_eq)
  finally show ?thesis by simp
qed

lemma js_rem_dvd: "90 dvd js_rem n 360 \<longleftrightarrow> 90 dvd n"
proof (cases "0 \<le> n")
  case True
  then show ?thesis by (simp add: js_rem_nonneg dvd_mod_iff)
next
  case False
  then show ?thesis by (simp add: js_rem_neg dvd_mod_iff)
qed

lemma vectorOfAngle_zero_iff:
  "0 \<le> a \<Longrightarrow> a < 360 \<Longrightarrow> zeroVec (vectorOfAngle a) \<longleftrightarrow> \<not> 90 dvd a"
  unfolding vectorOfAngle_def zeroVec_def by (simp; presburger)

lemma vectorOfAngle_zero: "\<not> 90 dvd a \<Longrightarrow> zeroVec (vectorOfAngle a)"
  unfolding vectorOfAngle_def zeroVec_def by auto

lemma vectorOfAngle_unit_or_zero: "unitVec (vectorOfAngle a) \<or> zeroVec (vectorOfAngle a)"
  unfolding vectorOfAngle_def zeroVec_def unitVec_def by simp

lemma unit_not_zero: "unitVec v \<Longrightarrow> \<not> zeroVec v"
  unfolding unitVec_def zeroVec_def by auto

lemma angleOffset_dvd: "90 dvd angleOffset d"
  unfolding angleOffset_def by (cases d) simp_all

lemma getVector_world_fixed: "\<not> bodyFixed d \<Longrightarrow> unitVec (getVector r d)"
  by (cases d) (simp_all add: bodyFixed_def getVector_def unitVec_def)

lemma getVector_body_fixed:
  "bodyFixed d \<Longrightarrow> getVector r d = vectorOfAngle ((r + angleOffset d) mod 360)"
  unfolding bodyFixed_def getVector_def by (auto simp: safeMod_360)

lemma getVector_zero_iff: "bodyFixed d \<Longrightarrow> zeroVec (getVector r d) \<longleftrightarrow> \<not> 90 dvd r"
proof -
  assume b: "bodyFixed d"
  have "zeroVec (getVector r d) \<longleftrightarrow> zeroVec (vectorOfAngle ((r + angleOffset d) mod 360))"
    using b by (simp add: getVector_body_fixed)
  also have "\<dots> \<longleftrightarrow> \<not> 90 dvd ((r + angleOffset d) mod 360)"
    by (rule vectorOfAngle_zero_iff) simp_all
  also have "\<dots> \<longleftrightarrow> \<not> 90 dvd (r + angleOffset d)"
    by (simp add: dvd_mod_iff)
  also have "\<dots> \<longleftrightarrow> \<not> 90 dvd r"
    using angleOffset_dvd[of d] by (simp add: dvd_add_left_iff)
  finally show ?thesis .
qed

lemma getVector_total: "unitVec (getVector r d) \<or> zeroVec (getVector r d)"
proof (cases "bodyFixed d")
  case True
  then show ?thesis by (simp add: getVector_body_fixed vectorOfAngle_unit_or_zero)
next
  case False
  then show ?thesis by (simp add: getVector_world_fixed)
qed

lemma cardinal_dvd: "cardinalRotation r \<Longrightarrow> 90 dvd r"
  unfolding cardinalRotation_def by auto

lemma getVector_cardinal: "cardinalRotation r \<Longrightarrow> unitVec (getVector r d)"
proof (cases "bodyFixed d")
  case True
  assume "cardinalRotation r"
  then have "\<not> zeroVec (getVector r d)" using True by (simp add: getVector_zero_iff cardinal_dvd)
  then show ?thesis using getVector_total[of r d] by blast
next
  case False
  then show ?thesis by (simp add: getVector_world_fixed)
qed

lemma getVector_legacy_zero:
  "bodyFixed d \<Longrightarrow> \<not> 90 dvd r \<Longrightarrow> zeroVec (getVector_legacy r d)"
proof -
  assume b: "bodyFixed d" and r: "\<not> 90 dvd r"
  have "\<not> 90 dvd (r + angleOffset d)" using angleOffset_dvd[of d] r by (simp add: dvd_add_left_iff)
  then have "\<not> 90 dvd js_rem (r + angleOffset d) 360" by (simp add: js_rem_dvd)
  then have "zeroVec (vectorOfAngle (js_rem (r + angleOffset d) 360))" by (rule vectorOfAngle_zero)
  then show ?thesis using b unfolding bodyFixed_def getVector_legacy_def by auto
qed

lemma getVector_legacy_cardinal: "cardinalRotation r \<Longrightarrow> getVector_legacy r d = getVector r d"
  unfolding cardinalRotation_def
  by (cases d)
     (auto simp: getVector_def getVector_legacy_def angleOffset_def safeMod_360 js_rem_def)

text \<open>
  Claim C7. For every rotation among 0, 90, 180 and 270, \<^verbatim>\<open>getVector\<close> gives the four
  world-fixed directions their fixed unit vectors (north is up, that is \<open>dy = -1\<close>), gives
  FRONT and BACK opposite vectors and LEFT and RIGHT opposite vectors, and \<^verbatim>\<open>getOpposite\<close>
  is its own inverse on all eight directions.
\<close>

theorem resolver_laws:
  "cardinalRotation r \<Longrightarrow>
     getVector r NORTH = \<lparr>dx = 0, dy = - 1\<rparr> \<and>
     getVector r SOUTH = \<lparr>dx = 0, dy = 1\<rparr> \<and>
     getVector r EAST = \<lparr>dx = 1, dy = 0\<rparr> \<and>
     getVector r WEST = \<lparr>dx = - 1, dy = 0\<rparr> \<and>
     oppositeVec (getVector r FRONT) (getVector r BACK) \<and>
     oppositeVec (getVector r LEFT) (getVector r RIGHT) \<and>
     getOpposite (getOpposite d) = d"
proof -
  assume c: "cardinalRotation r"
  have fixed: "getVector r NORTH = \<lparr>dx = 0, dy = - 1\<rparr>" "getVector r SOUTH = \<lparr>dx = 0, dy = 1\<rparr>"
    "getVector r EAST = \<lparr>dx = 1, dy = 0\<rparr>" "getVector r WEST = \<lparr>dx = - 1, dy = 0\<rparr>"
    by (simp_all add: getVector_def)
  have fb: "oppositeVec (getVector r FRONT) (getVector r BACK)"
    using c unfolding cardinalRotation_def
    by (elim disjE)
       (simp_all add: getVector_body_fixed bodyFixed_def angleOffset_def vectorOfAngle_def
          oppositeVec_def)
  have lr: "oppositeVec (getVector r LEFT) (getVector r RIGHT)"
    using c unfolding cardinalRotation_def
    by (elim disjE)
       (simp_all add: getVector_body_fixed bodyFixed_def angleOffset_def vectorOfAngle_def
          oppositeVec_def)
  have inv: "getOpposite (getOpposite d) = d"
    by (cases d) (simp_all add: getOpposite_def)
  show ?thesis using fixed fb lr inv by simp
qed

theorem resolver_laws_witness:
  "cardinalRotation 90 \<and>
   getVector 90 NORTH = \<lparr>dx = 0, dy = - 1\<rparr> \<and>
   getVector 90 FRONT = \<lparr>dx = 1, dy = 0\<rparr> \<and>
   oppositeVec (getVector 90 FRONT) (getVector 90 BACK) \<and>
   oppositeVec (getVector 90 LEFT) (getVector 90 RIGHT) \<and>
   getOpposite (getOpposite LEFT) = LEFT"
  using resolver_laws[of 90 LEFT]
  by (simp add: cardinalRotation_def getVector_body_fixed bodyFixed_def angleOffset_def
      vectorOfAngle_def)

text \<open>
  Claim C10, as amended. For a rotation among 0, 90, 180 and 270 \<^verbatim>\<open>getVector\<close> returns a
  unit vector for every direction, so the fallback branch is not reached. For a world-fixed
  direction it returns a unit vector whatever the rotation. For an integer rotation in the
  range where the double arithmetic of the function is exact (magnitude at most
  \<open>2^53 - 270\<close>) it returns a unit vector or the zero vector, and for a body-fixed direction
  the zero vector is the result exactly when the rotation is not a multiple of 90: a rotation
  such as 360 or -90, outside the four cardinal ones, still resolves to a unit vector. The
  final comparison chain yields a unit vector or the zero vector for every angle. The
  earlier variant of the function agrees on the four cardinal rotations and, in the exact
  range, also returns the zero vector for every rotation that is not a multiple of 90.
  Rotations that are larger or not integers are outside the model.
\<close>

theorem getVector_unit_or_zero:
  "(exactRotation r \<longrightarrow> unitVec (getVector r d) \<or> zeroVec (getVector r d)) \<and>
   (unitVec (vectorOfAngle a) \<or> zeroVec (vectorOfAngle a)) \<and>
   (cardinalRotation r \<longrightarrow>
      exactRotation r \<and> unitVec (getVector r d) \<and> \<not> zeroVec (getVector r d)) \<and>
   (exactRotation r \<and> bodyFixed d \<longrightarrow> (zeroVec (getVector r d) \<longleftrightarrow> \<not> 90 dvd r)) \<and>
   (\<not> bodyFixed d \<longrightarrow> unitVec (getVector r d)) \<and>
   (cardinalRotation r \<longrightarrow> getVector_legacy r d = getVector r d) \<and>
   (exactRotation r \<and> bodyFixed d \<and> \<not> 90 dvd r \<longrightarrow> zeroVec (getVector_legacy r d))"
proof -
  have c: "cardinalRotation r \<longrightarrow> exactRotation r"
    by (auto simp: cardinalRotation_def exactRotation_def)
  show ?thesis
    using c getVector_total[of r d] vectorOfAngle_unit_or_zero[of a] getVector_cardinal[of r d]
      unit_not_zero[of "getVector r d"] getVector_zero_iff[of d r] getVector_world_fixed[of d r]
      getVector_legacy_cardinal[of r d] getVector_legacy_zero[of d r]
    by blast
qed

theorem getVector_unit_or_zero_witness:
  "cardinalRotation 90 \<and> exactRotation 90 \<and> bodyFixed LEFT \<and> unitVec (getVector 90 LEFT) \<and>
   getVector_legacy 90 LEFT = getVector 90 LEFT \<and>
   \<not> bodyFixed NORTH \<and> unitVec (getVector 45 NORTH) \<and>
   exactRotation 45 \<and> bodyFixed FRONT \<and> \<not> 90 dvd (45 :: int) \<and> zeroVec (getVector 45 FRONT) \<and>
   zeroVec (getVector_legacy 45 FRONT) \<and>
   exactRotation (- 90) \<and> \<not> cardinalRotation (- 90) \<and> unitVec (getVector (- 90) FRONT)"
  using getVector_unit_or_zero[of 90 LEFT 0] getVector_unit_or_zero[of 45 FRONT 0]
    getVector_unit_or_zero[of 45 NORTH 0] getVector_unit_or_zero[of "- 90" FRONT 0]
  by (auto simp add: cardinalRotation_def bodyFixed_def exactRotation_def)

theorem getVector_unit_or_zero_counterexample:
  "\<not> cardinalRotation 360 \<and> exactRotation 360 \<and> bodyFixed FRONT \<and>
   getVector 360 FRONT = \<lparr>dx = 0, dy = - 1\<rparr> \<and> \<not> zeroVec (getVector 360 FRONT) \<and>
   getVector_legacy 360 FRONT = \<lparr>dx = 0, dy = - 1\<rparr>"
  by (simp add: cardinalRotation_def exactRotation_def getVector_body_fixed bodyFixed_def
      angleOffset_def vectorOfAngle_def zeroVec_def getVector_legacy_def js_rem_def)

section \<open>Properties of the level generator\<close>

lemma randomIndex_range: "0 \<le> r \<Longrightarrow> r < 1 \<Longrightarrow> 0 < n \<Longrightarrow> 0 \<le> randomIndex r n \<and> randomIndex r n < n"
proof -
  assume r: "0 \<le> r" "r < 1" and n: "0 < n"
  have "0 \<le> r * of_int n" using r n by simp
  moreover have "r * of_int n < of_int n" using r n by simp
  ultimately show ?thesis unfolding randomIndex_def by (simp add: floor_less_iff)
qed

lemma array_reads_in_range:
  assumes "0 \<le> r" "r < 1"
  shows "nat (randomIndex r (int (length relativeDirs))) < length relativeDirs"
    and "nat (randomIndex r (int (length absoluteDirs))) < length absoluteDirs"
proof -
  have "0 \<le> randomIndex r 4 \<and> randomIndex r 4 < 4"
    using randomIndex_range[OF assms, of 4] by simp
  then have b: "nat (randomIndex r 4) < 4" by linarith
  show "nat (randomIndex r (int (length relativeDirs))) < length relativeDirs"
    using b by (simp add: relativeDirs_def)
  show "nat (randomIndex r (int (length absoluteDirs))) < length absoluteDirs"
    using b by (simp add: absoluteDirs_def)
qed

lemma genStep_vec: "genStep rnd level rot i = (st, vec, i') \<Longrightarrow> vec = resolveStep rot st"
  unfolding genStep_def resolveStep_def Let_def
  by (auto split: if_splits prod.splits)

lemma prefixPositions_append:
  "prefixPositions rot pos (xs @ ys) =
     prefixPositions rot pos xs @ prefixPositions rot (last (pos # prefixPositions rot pos xs)) ys"
  by (induction xs arbitrary: pos) (simp_all add: Let_def)

lemma buildChain_ok:
  "buildChain rnd level rot n cx cy acc i = (False, fx, fy, ch, i') \<Longrightarrow>
   \<exists>new. ch = acc @ new \<and> length new = n \<and>
     list_all inGrid (prefixPositions rot (cx, cy) new) \<and>
     (fx, fy) = last ((cx, cy) # prefixPositions rot (cx, cy) new)"
proof (induction n arbitrary: cx cy acc i)
  case 0
  then show ?case by simp
next
  case (Suc n)
  obtain st vec j where g: "genStep rnd level rot i = (st, vec, j)"
    by (cases "genStep rnd level rot i") auto
  have v: "vec = resolveStep rot st" using g by (rule genStep_vec)
  let ?x = "cx + dx vec" and ?y = "cy + dy vec"
  from Suc.prems g have ok: "\<not> (?x < 0 \<or> ?x \<ge> GRID_SIZE \<or> ?y < 0 \<or> ?y \<ge> GRID_SIZE)"
    and rec: "buildChain rnd level rot n ?x ?y (acc @ [st]) j = (False, fx, fy, ch, i')"
    by (auto simp: Let_def split: if_splits)
  from Suc.IH[OF rec] obtain new where new: "ch = (acc @ [st]) @ new" "length new = n"
    "list_all inGrid (prefixPositions rot (?x, ?y) new)"
    "(fx, fy) = last ((?x, ?y) # prefixPositions rot (?x, ?y) new)" by blast
  have "inGrid (?x, ?y)" using ok by (simp add: inGrid_def)
  then show ?case using new v
    by (intro exI[of _ "st # new"]) (simp add: Let_def)
qed

lemma attempt_valid:
  assumes u: "unitDraws rnd" and a: "attempt rnd level i = (Some p, i')"
  shows "validPuzzle p"
proof -
  let ?pad = "padding (chainLength level)"
  let ?size = "GRID_SIZE - ?pad * 2"
  let ?ax = "randomIndex (rnd i) ?size + ?pad"
  let ?ay = "randomIndex (rnd (Suc i)) ?size + ?pad"
  let ?rot = "randomIndex (rnd (Suc (Suc i))) 4 * 90"
  obtain pf fx fy ch j where b:
    "buildChain rnd level ?rot (chainLength level) ?ax ?ay [] (Suc (Suc (Suc i))) = (pf, fx, fy, ch, j)"
    by (metis prod_cases5)
  from a b have pf: "\<not> pf" and ne: "fx \<noteq> ?ax \<or> fy \<noteq> ?ay"
    and p: "p = \<lparr>newAnchor = (?ax, ?ay), newRot = ?rot, newChain = ch, finalX = fx, finalY = fy\<rparr>"
    by (auto simp: attempt_def Let_def split: if_splits)
  from b pf have b': "buildChain rnd level ?rot (chainLength level) ?ax ?ay [] (Suc (Suc (Suc i))) = (False, fx, fy, ch, j)"
    by simp
  from buildChain_ok[OF b'] have pre: "list_all inGrid (prefixPositions ?rot (?ax, ?ay) ch)"
    and fin: "(fx, fy) = last ((?ax, ?ay) # prefixPositions ?rot (?ax, ?ay) ch)" by auto
  have pad: "0 \<le> ?pad" "?pad \<le> 2" by (simp_all add: padding_def)
  have size: "0 < ?size" using pad by (simp add: GRID_SIZE_def)
  have rx: "0 \<le> randomIndex (rnd i) ?size \<and> randomIndex (rnd i) ?size < ?size"
    using u size by (intro randomIndex_range) (simp_all add: unitDraws_def)
  have ry: "0 \<le> randomIndex (rnd (Suc i)) ?size \<and> randomIndex (rnd (Suc i)) ?size < ?size"
    using u size by (intro randomIndex_range) (simp_all add: unitDraws_def)
  have anchor: "inGrid (?ax, ?ay)" using rx ry pad unfolding inGrid_def GRID_SIZE_def by simp
  show ?thesis unfolding validPuzzle_def using p pre fin ne anchor by auto
qed

lemma searchLoop_valid:
  "unitDraws rnd \<Longrightarrow> searchLoop rnd level tries i = (Some p, n, i') \<Longrightarrow> validPuzzle p"
proof (induction rnd level tries i rule: searchLoop.induct)
  case (1 rnd level tries i)
  show ?case
  proof (cases "tries < MAX_ATTEMPTS")
    case False
    with "1.prems" show ?thesis by (simp add: searchLoop.simps[of rnd level tries i])
  next
    case True
    obtain r j where a: "attempt rnd level i = (r, j)" by (cases "attempt rnd level i") auto
    show ?thesis
    proof (cases r)
      case None
      with True a "1.prems" have "searchLoop rnd level (Suc tries) j = (Some p, n, i')"
        by (simp add: searchLoop.simps[of rnd level tries i])
      with "1.IH"[OF True refl] None a "1.prems"(1) show ?thesis by simp
    next
      case (Some q)
      with True a "1.prems" have "q = p" by (simp add: searchLoop.simps[of rnd level tries i])
      with Some a "1.prems"(1) show ?thesis using attempt_valid by blast
    qed
  qed
qed

lemma searchLoop_bound:
  "tries \<le> MAX_ATTEMPTS \<Longrightarrow> searchLoop rnd level tries i = (r, n, i') \<Longrightarrow>
     tries \<le> n \<and> n \<le> MAX_ATTEMPTS \<and> (r = None \<longrightarrow> n = MAX_ATTEMPTS) \<and> (r \<noteq> None \<longrightarrow> tries < n)"
proof (induction rnd level tries i rule: searchLoop.induct)
  case (1 rnd level tries i)
  show ?case
  proof (cases "tries < MAX_ATTEMPTS")
    case False
    with "1.prems" show ?thesis by (simp add: searchLoop.simps[of rnd level tries i])
  next
    case True
    obtain q j where a: "attempt rnd level i = (q, j)" by (cases "attempt rnd level i") auto
    show ?thesis
    proof (cases q)
      case None
      with True a "1.prems" have s: "searchLoop rnd level (Suc tries) j = (r, n, i')"
        by (simp add: searchLoop.simps[of rnd level tries i])
      have "Suc tries \<le> MAX_ATTEMPTS" using True by simp
      with "1.IH"[OF True refl] None a s show ?thesis by simp
    next
      case (Some p)
      with True a "1.prems" show ?thesis by (auto simp add: searchLoop.simps[of rnd level tries i])
    qed
  qed
qed

lemma failsafe_valid: "validPuzzle failsafe"
  by (simp add: validPuzzle_def failsafe_def inGrid_def GRID_SIZE_def resolveStep_def getVector_def Let_def)

text \<open>
  Claim C1. For every level from 1 to 99 and every sequence of random draws from the unit
  interval, the puzzle that \<^verbatim>\<open>generateLevel\<close> installs is valid: the target differs from
  the anchor, the anchor lies in the 7 by 7 grid, every position reached by accumulating the
  resolved displacements of the chain from the anchor lies in the grid, and the target is
  the last of these positions.
\<close>

theorem generateLevel_valid:
  "unitDraws rnd \<Longrightarrow> 1 \<le> level \<Longrightarrow> level \<le> 99 \<Longrightarrow> validPuzzle (fst (generatePuzzle rnd level i))"
proof -
  assume u: "unitDraws rnd"
  obtain r n j where s: "searchLoop rnd level 0 i = (r, n, j)" by (metis prod_cases3)
  show ?thesis
  proof (cases r)
    case None
    with s show ?thesis by (simp add: generatePuzzle_def failsafe_valid)
  next
    case (Some p)
    with s u have "validPuzzle p" using searchLoop_valid by blast
    with s Some show ?thesis by (simp add: generatePuzzle_def)
  qed
qed

lemma attempt_half: "attempt (\<lambda>_. 1 / 2) 1 i =
   (Some \<lparr>newAnchor = (3, 3), newRot = 180,
      newChain = [\<lparr>dir = LEFT, frame = RELATIVE, protocol = DIRECT, idStr = Generated (1 / 2),
                   displayColor = ''#00ff9d''\<rparr>], finalX = 4, finalY = 3\<rparr>, i + 5)"
  by (simp add: attempt_def chainLength_def padding_def GRID_SIZE_def randomIndex_def genStep_def
      allowAbsolute_def allowInversion_def allowInterference_def relativeDirs_def getVector_def
      angleOffset_def safeMod_def js_rem_def vectorOfAngle_def COLORS_direct_def Let_def)

lemma generate_half: "fst (generatePuzzle (\<lambda>_. 1 / 2) 1 0) =
   \<lparr>newAnchor = (3, 3), newRot = 180,
      newChain = [\<lparr>dir = LEFT, frame = RELATIVE, protocol = DIRECT, idStr = Generated (1 / 2),
                   displayColor = ''#00ff9d''\<rparr>], finalX = 4, finalY = 3\<rparr>"
  by (simp add: generatePuzzle_def searchLoop.simps[of _ _ 0] MAX_ATTEMPTS_def attempt_half)

theorem generateLevel_valid_witness:
  "unitDraws (\<lambda>_. 1 / 2) \<and> (1::int) \<le> 1 \<and> (1::int) \<le> 99 \<and>
   validPuzzle (fst (generatePuzzle (\<lambda>_. 1 / 2) 1 0)) \<and>
   fst (generatePuzzle (\<lambda>_. 1 / 2) 1 0) = \<lparr>newAnchor = (3, 3), newRot = 180,
      newChain = [\<lparr>dir = LEFT, frame = RELATIVE, protocol = DIRECT, idStr = Generated (1 / 2),
                   displayColor = ''#00ff9d''\<rparr>], finalX = 4, finalY = 3\<rparr>"
  using generateLevel_valid[of "\<lambda>_. 1 / 2" 1 0] by (simp add: unitDraws_def generate_half)

lemma attempt_zero: "attempt (\<lambda>_. 0) 1 i = (None, i + 5)"
  by (simp add: attempt_def chainLength_def padding_def GRID_SIZE_def randomIndex_def genStep_def
      allowAbsolute_def allowInversion_def allowInterference_def relativeDirs_def getVector_def
      angleOffset_def safeMod_def js_rem_def vectorOfAngle_def COLORS_direct_def Let_def)

lemma searchLoop_zero:
  "tries \<le> MAX_ATTEMPTS \<Longrightarrow>
   searchLoop (\<lambda>_. 0) 1 tries i = (None, MAX_ATTEMPTS, i + 5 * (MAX_ATTEMPTS - tries))"
proof (induction "MAX_ATTEMPTS - tries" arbitrary: tries i)
  case 0
  then show ?case by (simp add: searchLoop.simps[of _ _ tries])
next
  case (Suc k)
  then have lt: "tries < MAX_ATTEMPTS" and k: "k = MAX_ATTEMPTS - Suc tries" by simp_all
  from Suc.hyps(1)[OF k] lt have "searchLoop (\<lambda>_. 0) 1 (Suc tries) (i + 5) =
      (None, MAX_ATTEMPTS, i + 5 + 5 * (MAX_ATTEMPTS - Suc tries))" by simp
  moreover have "i + 5 + 5 * (MAX_ATTEMPTS - Suc tries) = i + 5 * (MAX_ATTEMPTS - tries)"
    using lt by simp
  ultimately show ?case using lt by (simp add: searchLoop.simps[of _ _ tries] attempt_zero)
qed

text \<open>
  Claim C2. For every level and every sequence of draws the search loop terminates (it is
  a total function, by the measure \<open>MAX_ATTEMPTS - tries\<close>) after at least one and at most
  500 attempts, and when all of them were rejected \<^verbatim>\<open>generateLevel\<close> installs the fixed
  failsafe puzzle: anchor (3, 3), rotation 0, the single instruction NORTH, ABSOLUTE, DIRECT,
  and target (3, 2), whatever the level and the draws.
\<close>

theorem generateLevel_terminates_failsafe:
  "(case searchLoop rnd level 0 i of
      (found, tries, i') \<Rightarrow>
        1 \<le> tries \<and> tries \<le> 500 \<and>
        (found = None \<longrightarrow> tries = 500 \<and>
           generatePuzzle rnd level i =
             (\<lparr>newAnchor = (3, 3), newRot = 0,
               newChain = [\<lparr>dir = NORTH, frame = ABSOLUTE, protocol = DIRECT,
                            idStr = Literal ''failsafe'', displayColor = ''#00ff9d''\<rparr>],
               finalX = 3, finalY = 2\<rparr>, 500, i')))"
proof -
  obtain r n j where s: "searchLoop rnd level 0 i = (r, n, j)" by (metis prod_cases3)
  have "0 \<le> n \<and> n \<le> MAX_ATTEMPTS \<and> (r = None \<longrightarrow> n = MAX_ATTEMPTS) \<and> (r \<noteq> None \<longrightarrow> 0 < n)"
    using searchLoop_bound[OF _ s] by simp
  then show ?thesis using s
    by (cases r) (auto simp: generatePuzzle_def failsafe_def MAX_ATTEMPTS_def COLORS_direct_def)
qed

theorem generateLevel_terminates_failsafe_witness:
  "searchLoop (\<lambda>_. 0) 1 0 0 = (None, 500, 2500) \<and>
   generatePuzzle (\<lambda>_. 0) 1 0 =
     (\<lparr>newAnchor = (3, 3), newRot = 0,
       newChain = [\<lparr>dir = NORTH, frame = ABSOLUTE, protocol = DIRECT,
                    idStr = Literal ''failsafe'', displayColor = ''#00ff9d''\<rparr>],
       finalX = 3, finalY = 2\<rparr>, 500, 2500)"
  using generateLevel_terminates_failsafe[of "\<lambda>_. 0" 1 0] searchLoop_zero[of 0 0]
  by (simp add: MAX_ATTEMPTS_def)

section \<open>Properties of the progression state machine\<close>

lemma updateAnalytics_game:
  "game (updateAnalytics result w) = (game w)\<lparr>analytics := analytics (game (updateAnalytics result w))\<rparr>"
  by (simp add: updateAnalytics_def)

lemma updateAnalytics_fields [simp]:
  "status (game (updateAnalytics r w)) = status (game w)"
  "currentLevel (game (updateAnalytics r w)) = currentLevel (game w)"
  "stability (game (updateAnalytics r w)) = stability (game w)"
  "maxLevel (game (updateAnalytics r w)) = maxLevel (game w)"
  "score (game (updateAnalytics r w)) = score (game w)"
  "multiplier (game (updateAnalytics r w)) = multiplier (game w)"
  "streak (game (updateAnalytics r w)) = streak (game w)"
  "isPracticeMode (game (updateAnalytics r w)) = isPracticeMode (game w)"
  "sessionCorrect (game (updateAnalytics r w)) = sessionCorrect (game w)"
  "sessionTotal (game (updateAnalytics r w)) = sessionTotal (game w)"
  "scheduled (updateAnalytics r w) = scheduled w"
  "timer (updateAnalytics r w) = timer w"
  "chain (updateAnalytics r w) = chain w"
  "targetPos (updateAnalytics r w) = targetPos w"
  "failureHandled (updateAnalytics r w) = failureHandled w"
  by (simp_all add: updateAnalytics_def)

lemma generateLevel_fields [simp]:
  "game (generateLevel rnd level w) = game w"
  "scheduled (generateLevel rnd level w) = scheduled w"
  "failureHandled (generateLevel rnd level w) = failureHandled w"
  "timer (generateLevel rnd level w) = 100"
  by (simp_all add: generateLevel_def split: prod.splits)

lemma successOutcome_inv:
  "gameInv g \<Longrightarrow> successOutcome g = (nl, ns, st) \<Longrightarrow> 1 \<le> nl \<and> 0 \<le> ns \<and> ns \<le> 100"
  by (auto simp: gameInv_def successOutcome_def Let_def split: if_splits)

lemma failureOutcome_inv:
  "gameInv g \<Longrightarrow> failureOutcome g = (nl, ns, st) \<Longrightarrow> 1 \<le> nl \<and> 0 \<le> ns \<and> ns \<le> 100"
  by (auto simp: gameInv_def failureOutcome_def Let_def split: if_splits)

lemma handleSuccess_inv: "worldInv w \<Longrightarrow> worldInv (handleSuccess w)"
proof -
  assume inv: "worldInv w"
  obtain nl ns st where o: "successOutcome (game w) = (nl, ns, st)" by (metis prod_cases3)
  from inv have g: "gameInv (game w)" by (simp add: worldInv_def)
  from successOutcome_inv[OF g o] have b: "1 \<le> nl" "0 \<le> ns" "ns \<le> 100" by auto
  show ?thesis using inv b o
    by (simp add: handleSuccess_def worldInv_def gameInv_def timeoutInv_def Let_def)
qed

lemma handleFailure_inv: "worldInv w \<Longrightarrow> worldInv (handleFailure w)"
proof -
  assume inv: "worldInv w"
  obtain nl ns st where o: "failureOutcome (game w) = (nl, ns, st)" by (metis prod_cases3)
  from inv have g: "gameInv (game w)" by (simp add: worldInv_def)
  from failureOutcome_inv[OF g o] have b: "1 \<le> nl" "0 \<le> ns" "ns \<le> 100" by auto
  show ?thesis using inv b o
    by (simp add: handleFailure_def worldInv_def gameInv_def timeoutInv_def Let_def)
qed

lemma worldInv_feedback [simp]: "worldInv (w\<lparr>feedbackCell := c\<rparr>) = worldInv w"
  by (simp add: worldInv_def)

lemma worldInv_handled [simp]: "worldInv (w\<lparr>failureHandled := c\<rparr>) = worldInv w"
  by (simp add: worldInv_def)

lemma worldInv_timer [simp]: "worldInv (w\<lparr>timer := c\<rparr>) = worldInv w"
  by (simp add: worldInv_def)

lemma worldInv_generateLevel [simp]: "worldInv (generateLevel rnd level w) = worldInv w"
  by (simp add: worldInv_def)

lemma handleCellClick_inv: "worldInv w \<Longrightarrow> worldInv (handleCellClick cx cy w)"
  by (simp add: handleCellClick_def handleSuccess_inv handleFailure_inv)

lemma timerTick_inv: "worldInv w \<Longrightarrow> worldInv (timerTick w)"
  by (simp add: timerTick_def Let_def handleFailure_inv)

lemma startGame_inv: "worldInv w \<Longrightarrow> worldInv (startGame rnd w)"
  by (simp add: startGame_def Let_def worldInv_def gameInv_def)

lemma stopGame_inv: "worldInv w \<Longrightarrow> worldInv (stopGame now w)"
  by (simp add: stopGame_def recordSession_def Let_def worldInv_def gameInv_def)

lemma togglePracticeMode_inv: "worldInv w \<Longrightarrow> worldInv (togglePracticeMode rnd w)"
  by (simp add: togglePracticeMode_def Let_def worldInv_def gameInv_def)

lemma resetProgress_inv: "worldInv w \<Longrightarrow> worldInv (resetProgress c w)"
  by (simp add: resetProgress_def worldInv_def gameInv_def)

lemma manualSetLevel_inv: "worldInv w \<Longrightarrow> worldInv (manualSetLevel input w)"
  by (simp add: manualSetLevel_def worldInv_def gameInv_def split: option.splits)

lemma fire_inv:
  "timeoutInv t \<Longrightarrow> gameInv (game w) \<Longrightarrow> list_all timeoutInv (scheduled w) \<Longrightarrow> worldInv (fire rnd t w)"
  by (cases t) (simp_all add: fire_def worldInv_def gameInv_def timeoutInv_def)

lemma fireTimeout_inv:
  assumes "worldInv w" "k < length (scheduled w)"
  shows "worldInv (fire rnd (scheduled w ! k) (w\<lparr>scheduled := take k (scheduled w) @ drop (Suc k) (scheduled w)\<rparr>))"
proof -
  from assms have all: "list_all timeoutInv (scheduled w)" and g: "gameInv (game w)"
    by (simp_all add: worldInv_def)
  from all assms(2) have t: "timeoutInv (scheduled w ! k)" by (simp add: list_all_length)
  have "set (take k (scheduled w) @ drop (Suc k) (scheduled w)) \<subseteq> set (scheduled w)"
    using set_take_subset set_drop_subset by fastforce
  with all have rest: "list_all timeoutInv (take k (scheduled w) @ drop (Suc k) (scheduled w))"
    unfolding list_all_iff by blast
  show ?thesis using g rest by (intro fire_inv[OF t]) simp_all
qed

lemma statusEffect_inv [simp]: "worldInv (statusEffect b w) = worldInv w"
  by (simp add: statusEffect_def)

lemma dispatch_inv: "worldInv w \<Longrightarrow> worldInv (dispatch rnd e w)"
  by (cases e)
     (simp_all add: dispatch_def handleCellClick_inv timerTick_inv startGame_inv stopGame_inv
        togglePracticeMode_inv fireTimeout_inv manualSetLevel_inv resetProgress_inv,
      simp_all add: worldInv_def gameInv_def)

lemma step_inv: "worldInv w \<Longrightarrow> worldInv (step rnd w e)"
  by (simp add: step_def dispatch_inv)

lemma run_inv: "worldInv w \<Longrightarrow> worldInv (run rnd w es)"
  unfolding run_def by (induction es arbitrary: w) (simp_all add: step_inv)

lemma initialWorld_inv: "worldInv initialWorld"
  by (simp add: worldInv_def initialWorld_def initialGame_def gameInv_def)

lemma playingWorld_fields [simp]:
  "game (playingWorld g t) = g\<lparr>status := Playing\<rparr>"
  "timer (playingWorld g t) = t"
  "targetPos (playingWorld g t) = Some (3, 2)"
  "scheduled (playingWorld g t) = []"
  "failureHandled (playingWorld g t) = False"
  by (simp_all add: playingWorld_def initialWorld_def)

lemma exampleWorld_fields [simp]:
  "game levelThreeWorld = initialGame\<lparr>currentLevel := 3, status := Playing\<rparr>"
  "timer levelThreeWorld = 80"
  "targetPos levelThreeWorld = Some (3, 2)"
  "scheduled levelThreeWorld = []"
  "game fractionalRewardWorld = initialGame\<lparr>stability := 95, multiplier := 5 / 2, status := Playing\<rparr>"
  "timer fractionalRewardWorld = 81"
  "targetPos fractionalRewardWorld = Some (3, 2)"
  "game practiceWorld = initialGame\<lparr>isPracticeMode := True, status := Playing\<rparr>"
  "targetPos practiceWorld = Some (3, 2)"
  "scheduled practiceWorld = []"
  "game expiredWorld = initialGame\<lparr>status := Playing\<rparr>"
  "timer expiredWorld = 0"
  "failureHandled expiredWorld = False"
  "chain expiredWorld = newChain failsafe"
  "scheduled expiredWorld = []"
  "targetPos expiredWorld = Some (3, 2)"
  "timer practiceWorld = 100"
  by (simp_all add: levelThreeWorld_def fractionalRewardWorld_def practiceWorld_def
      expiredWorld_def playingWorld_def initialWorld_def)


lemma failure_at_level_one:
  "currentLevel g = 1 \<Longrightarrow> fst (failureOutcome g) = 1 \<and> snd (snd (failureOutcome g)) = Playing"
  by (simp add: failureOutcome_def Let_def)

lemma failure_round_level_one:
  assumes "status (game v) = Playing" "scheduled v = []" "currentLevel (game v) = 1"
    "targetPos v \<noteq> Some (cx, cy)"
  shows "currentLevel (game (run rnd v [CellClick cx cy])) = 1 \<and>
         currentLevel (game (run rnd v [CellClick cx cy, FireTimeout 0])) = 1 \<and>
         currentLevel (game (run rnd v [CellClick cx cy, FireTimeout 0, FireTimeout 0])) = 1 \<and>
         status (game (run rnd v [CellClick cx cy, FireTimeout 0, FireTimeout 0])) = Playing \<and>
         scheduled (run rnd v [CellClick cx cy, FireTimeout 0, FireTimeout 0]) = []"
proof -
  obtain ns where o: "failureOutcome (game v) = (1, ns, Playing)"
    using failure_at_level_one[OF assms(3)] by (metis prod.collapse)
  show ?thesis using assms o
    by (simp add: run_def step_def dispatch_def handleCellClick_def handleFailure_def Let_def
        statusEffect_def fire_def)
qed

text \<open>
  Claim C5. The bounds hold in the initial state and are kept by every event of the
  component (a click on a cell, a tick, start, stop, the practice toggle, a manual level, a
  reset, the menu buttons, and every waiting callback, which covers the level-up and
  level-down transitions), so after any sequence of events the stability lies in [0, 100],
  the multiplier in [1, 5] and the level is at least 1. A failure at level 1 computes the
  next level 1 and never the status \<^verbatim>\<open>level_down\<close>, and the level stays 1 through the
  click and both of its callbacks.
\<close>

theorem progression_bounds:
  "worldInv initialWorld \<and>
   (worldInv w \<longrightarrow> worldInv (step rnd w e)) \<and>
   gameInv (game (run rnd initialWorld es)) \<and>
   (currentLevel (game v) = 1 \<longrightarrow>
      fst (failureOutcome (game v)) = 1 \<and> snd (snd (failureOutcome (game v))) = Playing) \<and>
   (status (game v) = Playing \<and> scheduled v = [] \<and> currentLevel (game v) = 1 \<and>
    targetPos v \<noteq> Some (cx, cy) \<longrightarrow>
      currentLevel (game (run rnd v [CellClick cx cy])) = 1 \<and>
      currentLevel (game (run rnd v [CellClick cx cy, FireTimeout 0])) = 1 \<and>
      currentLevel (game (run rnd v [CellClick cx cy, FireTimeout 0, FireTimeout 0])) = 1 \<and>
      status (game (run rnd v [CellClick cx cy, FireTimeout 0, FireTimeout 0])) = Playing)"
proof -
  have "worldInv (run rnd initialWorld es)" by (rule run_inv[OF initialWorld_inv])
  then have "gameInv (game (run rnd initialWorld es))" by (simp add: worldInv_def)
  then show ?thesis
    using initialWorld_inv step_inv failure_at_level_one failure_round_level_one by blast
qed

theorem progression_bounds_witness:
  "worldInv initialWorld \<and> worldInv (step (\<lambda>_. 1 / 2) initialWorld StartGame) \<and>
   gameInv (game (run (\<lambda>_. 1 / 2) initialWorld [StartGame, CellClick 0 0])) \<and>
   currentLevel (game expiredWorld) = 1 \<and> status (game expiredWorld) = Playing \<and>
   scheduled expiredWorld = [] \<and> targetPos expiredWorld \<noteq> Some (0, 0) \<and>
   fst (failureOutcome (game expiredWorld)) = 1 \<and>
   currentLevel (game (run (\<lambda>_. 1 / 2) expiredWorld [CellClick 0 0, FireTimeout 0, FireTimeout 0])) = 1 \<and>
   status (game (run (\<lambda>_. 1 / 2) expiredWorld [CellClick 0 0, FireTimeout 0, FireTimeout 0])) = Playing"
  using progression_bounds[of initialWorld "\<lambda>_. 1 / 2" StartGame "[StartGame, CellClick 0 0]"
      expiredWorld 0 0]
  by (simp add: expiredWorld_def initialGame_def)

lemma generateLevel_scheduled_update [simp]:
  "generateLevel rnd level (w\<lparr>scheduled := q\<rparr>) = (generateLevel rnd level w)\<lparr>scheduled := q\<rparr>"
  by (simp add: generateLevel_def split: prod.splits)

lemma handleSuccess_scoring:
  assumes "\<not> isPracticeMode (game w)"
  shows "score (game (handleSuccess w)) =
           \<lfloor>of_int (score (game w)) +
             ((100 + of_int \<lfloor>timer w\<rfloor>) * multiplier (game w) + of_int (currentLevel (game w)) * 50)\<rfloor>"
    and "stability (game (handleSuccess w)) =
           (if stability (game w) + 15 < 100 then stability (game w) + 15 else 50)"
    and "multiplier (game (handleSuccess w)) = min (multiplier (game w) + 1 / 2) 5"
    and "streak (game (handleSuccess w)) = streak (game w) + 1"
    and "status (game (handleSuccess w)) = Success_anim"
    and "currentLevel (game (handleSuccess w)) = currentLevel (game w)"
    and "scheduled (handleSuccess w) = scheduled w @
           [if stability (game w) + 15 < 100 then SuccessHold Playing (currentLevel (game w))
            else SuccessHold Level_up (currentLevel (game w) + 1)]"
  using assms
  by (simp_all add: handleSuccess_def successOutcome_def points_def Let_def)

text \<open>
  Claim C6, as amended. On a click on the target cell while playing outside practice mode,
  with reward = (100 + floor(timer)) * multiplier + level * 50: the score becomes the floor
  of score + reward (the reward has a fractional part when the multiplier is not a whole
  number); the stability rises by 15 when the sum stays below 100 and is otherwise reset to
  50 by the level-up branch (it is never held at 100); the multiplier rises by 0.5 up to 5;
  the streak is incremented. At level 3 with floor(timer) = 80, multiplier 1 and stability 50
  the score rises by exactly 330, the stability becomes 65 and the level is still 3 when the
  next round starts.
\<close>

theorem success_reward:
  "status (game w) = Playing \<Longrightarrow> \<not> isPracticeMode (game w) \<Longrightarrow> targetPos w = Some (cx, cy) \<Longrightarrow>
   score (game (handleCellClick cx cy w)) =
     \<lfloor>of_int (score (game w)) +
       ((100 + of_int \<lfloor>timer w\<rfloor>) * multiplier (game w) + of_int (currentLevel (game w)) * 50)\<rfloor> \<and>
   stability (game (handleCellClick cx cy w)) =
     (if stability (game w) + 15 < 100 then stability (game w) + 15 else 50) \<and>
   multiplier (game (handleCellClick cx cy w)) = min (multiplier (game w) + 1 / 2) 5 \<and>
   streak (game (handleCellClick cx cy w)) = streak (game w) + 1 \<and>
   (currentLevel (game w) = 3 \<and> \<lfloor>timer w\<rfloor> = 80 \<and> multiplier (game w) = 1 \<and>
    stability (game w) = 50 \<and> scheduled w = [] \<longrightarrow>
      score (game (handleCellClick cx cy w)) = score (game w) + 330 \<and>
      stability (game (handleCellClick cx cy w)) = 65 \<and>
      currentLevel (game (handleCellClick cx cy w)) = 3 \<and>
      currentLevel (game (run rnd w [CellClick cx cy, FireTimeout 0, FireTimeout 0])) = 3 \<and>
      stability (game (run rnd w [CellClick cx cy, FireTimeout 0, FireTimeout 0])) = 65 \<and>
      status (game (run rnd w [CellClick cx cy, FireTimeout 0, FireTimeout 0])) = Playing)"
proof -
  assume a: "status (game w) = Playing" "\<not> isPracticeMode (game w)" "targetPos w = Some (cx, cy)"
  let ?w = "w\<lparr>feedbackCell := Some (cx, cy, Win)\<rparr>"
  have c: "handleCellClick cx cy w = handleSuccess ?w" using a by (simp add: handleCellClick_def)
  have p: "\<not> isPracticeMode (game ?w)" using a by simp
  note s = handleSuccess_scoring[OF p]
  have gen: "score (game (handleCellClick cx cy w)) =
     \<lfloor>of_int (score (game w)) +
       ((100 + of_int \<lfloor>timer w\<rfloor>) * multiplier (game w) + of_int (currentLevel (game w)) * 50)\<rfloor> \<and>
   stability (game (handleCellClick cx cy w)) =
     (if stability (game w) + 15 < 100 then stability (game w) + 15 else 50) \<and>
   multiplier (game (handleCellClick cx cy w)) = min (multiplier (game w) + 1 / 2) 5 \<and>
   streak (game (handleCellClick cx cy w)) = streak (game w) + 1"
    unfolding c using s by simp
  have scen: "currentLevel (game w) = 3 \<and> \<lfloor>timer w\<rfloor> = 80 \<and> multiplier (game w) = 1 \<and>
    stability (game w) = 50 \<and> scheduled w = [] \<longrightarrow>
      score (game (handleCellClick cx cy w)) = score (game w) + 330 \<and>
      stability (game (handleCellClick cx cy w)) = 65 \<and>
      currentLevel (game (handleCellClick cx cy w)) = 3 \<and>
      currentLevel (game (run rnd w [CellClick cx cy, FireTimeout 0, FireTimeout 0])) = 3 \<and>
      stability (game (run rnd w [CellClick cx cy, FireTimeout 0, FireTimeout 0])) = 65 \<and>
      status (game (run rnd w [CellClick cx cy, FireTimeout 0, FireTimeout 0])) = Playing"
  proof
    assume h: "currentLevel (game w) = 3 \<and> \<lfloor>timer w\<rfloor> = 80 \<and> multiplier (game w) = 1 \<and>
      stability (game w) = 50 \<and> scheduled w = []"
    have sc: "score (game (handleSuccess ?w)) = score (game w) + 330"
      using s(1) h by simp
    have st: "stability (game (handleSuccess ?w)) = 65" using s(2) h by simp
    have lv: "currentLevel (game (handleSuccess ?w)) = 3" using s(6) h by simp
    have q: "scheduled (handleSuccess ?w) = [SuccessHold Playing 3]" using s(7) h by simp
    have stt: "status (game (handleSuccess ?w)) = Success_anim" using s(5) by simp
    have r: "run rnd w [CellClick cx cy, FireTimeout 0, FireTimeout 0] =
       statusEffect Success_anim (fire rnd (SuccessFrame 3)
         ((generateLevel rnd 3 (handleSuccess ?w))\<lparr>scheduled := []\<rparr>))"
      using a q stt
      by (simp add: run_def step_def dispatch_def c statusEffect_def fire_def)
    show "score (game (handleCellClick cx cy w)) = score (game w) + 330 \<and>
      stability (game (handleCellClick cx cy w)) = 65 \<and>
      currentLevel (game (handleCellClick cx cy w)) = 3 \<and>
      currentLevel (game (run rnd w [CellClick cx cy, FireTimeout 0, FireTimeout 0])) = 3 \<and>
      stability (game (run rnd w [CellClick cx cy, FireTimeout 0, FireTimeout 0])) = 65 \<and>
      status (game (run rnd w [CellClick cx cy, FireTimeout 0, FireTimeout 0])) = Playing"
      unfolding r c using sc st lv by (simp add: statusEffect_def fire_def)
  qed
  show ?thesis using gen scen by blast
qed

theorem success_reward_witness:
  "status (game levelThreeWorld) = Playing \<and> \<not> isPracticeMode (game levelThreeWorld) \<and>
   targetPos levelThreeWorld = Some (3, 2) \<and>
   currentLevel (game levelThreeWorld) = 3 \<and> \<lfloor>timer levelThreeWorld\<rfloor> = 80 \<and>
   multiplier (game levelThreeWorld) = 1 \<and> stability (game levelThreeWorld) = 50 \<and>
   scheduled levelThreeWorld = [] \<and> score (game levelThreeWorld) = 0 \<and>
   score (game (handleCellClick 3 2 levelThreeWorld)) = 330 \<and>
   stability (game (handleCellClick 3 2 levelThreeWorld)) = 65 \<and>
   multiplier (game (handleCellClick 3 2 levelThreeWorld)) = 3 / 2 \<and>
   streak (game (handleCellClick 3 2 levelThreeWorld)) = 1 \<and>
   currentLevel (game (run (\<lambda>_. 1 / 2) levelThreeWorld
      [CellClick 3 2, FireTimeout 0, FireTimeout 0])) = 3"
  using success_reward[of levelThreeWorld 3 2 "\<lambda>_. 1 / 2"]
  by (simp add: initialGame_def)

theorem success_reward_counterexample:
  "status (game fractionalRewardWorld) = Playing \<and> \<not> isPracticeMode (game fractionalRewardWorld) \<and>
   targetPos fractionalRewardWorld = Some (3, 2) \<and>
   of_int (score (game (handleCellClick 3 2 fractionalRewardWorld))) \<noteq>
     of_int (score (game fractionalRewardWorld)) +
       ((100 + of_int \<lfloor>timer fractionalRewardWorld\<rfloor>) * multiplier (game fractionalRewardWorld) +
        of_int (currentLevel (game fractionalRewardWorld)) * 50) \<and>
   score (game (handleCellClick 3 2 fractionalRewardWorld)) = 502 \<and>
   stability (game (handleCellClick 3 2 fractionalRewardWorld)) \<noteq>
     min (stability (game fractionalRewardWorld) + 15) 100 \<and>
   stability (game (handleCellClick 3 2 fractionalRewardWorld)) = 50"
  by (simp add: handleCellClick_def handleSuccess_def successOutcome_def points_def Let_def
      initialGame_def updateAnalytics_def)

lemma practice_success:
  assumes "practiceReady w"
  shows "game (run rnd (handleSuccess w) [FireTimeout 0, FireTimeout 0, FireTimeout 0]) =
           (game w)\<lparr>streak := streak (game w) + 1,
                     multiplier := min (multiplier (game w) + 1 / 2) 5,
                     maxLevel := max (maxLevel (game w)) (currentLevel (game w))\<rparr>"
    and "scheduled (run rnd (handleSuccess w) [FireTimeout 0, FireTimeout 0, FireTimeout 0]) = []"
  using assms
  by (simp_all add: practiceReady_def run_def step_def dispatch_def handleSuccess_def
      successOutcome_def updateAnalytics_def Let_def statusEffect_def fire_def)

lemma practice_failure:
  assumes "practiceReady w"
  shows "game (run rnd (handleFailure w) [FireTimeout 0, FireTimeout 0, FireTimeout 0]) =
           (game w)\<lparr>streak := 0, multiplier := 1\<rparr>"
    and "scheduled (run rnd (handleFailure w) [FireTimeout 0, FireTimeout 0, FireTimeout 0]) = []"
  using assms
  by (simp_all add: practiceReady_def run_def step_def dispatch_def handleFailure_def
      failureOutcome_def updateAnalytics_def Let_def statusEffect_def fire_def)

lemma run_Cons: "run rnd w (e # es) = run rnd (step rnd w e) es"
  by (simp add: run_def)

lemma practiceReady_feedback [simp]: "practiceReady (w\<lparr>feedbackCell := c\<rparr>) = practiceReady w"
  by (simp add: practiceReady_def)

lemma step_click_win:
  "status (game w) = Playing \<Longrightarrow> targetPos w = Some (cx, cy) \<Longrightarrow>
   step rnd w (CellClick cx cy) = handleSuccess (w\<lparr>feedbackCell := Some (cx, cy, Win)\<rparr>)"
  by (simp add: step_def dispatch_def handleCellClick_def statusEffect_def handleSuccess_def
      split: prod.splits)

lemma step_click_loss:
  "status (game w) = Playing \<Longrightarrow> targetPos w \<noteq> Some (cx, cy) \<Longrightarrow>
   step rnd w (CellClick cx cy) = handleFailure (w\<lparr>feedbackCell := Some (cx, cy, Loss)\<rparr>)"
  by (simp add: step_def dispatch_def handleCellClick_def statusEffect_def handleFailure_def
      split: prod.splits)

lemma wrongCell_wrong: "targetPos w \<noteq> Some (fst (wrongCell w), snd (wrongCell w))"
  by (simp add: wrongCell_def)

lemma idle_fire: "scheduled w = [] \<Longrightarrow> run rnd w [FireTimeout 0, FireTimeout 0, FireTimeout 0] = w"
  by (simp add: run_def step_def dispatch_def statusEffect_def)

lemma practice_round:
  assumes r: "practiceReady w"
  shows "practiceReady (playRound rnd w result) \<and>
         score (game (playRound rnd w result)) = score (game w) \<and>
         stability (game (playRound rnd w result)) = stability (game w) \<and>
         analytics (game (playRound rnd w result)) = analytics (game w) \<and>
         currentLevel (game (playRound rnd w result)) = currentLevel (game w) \<and>
         sessionCorrect (game (playRound rnd w result)) = sessionCorrect (game w) \<and>
         sessionTotal (game (playRound rnd w result)) = sessionTotal (game w)"
proof (cases result)
  case Win
  show ?thesis
  proof (cases "targetPos w")
    case None
    with Win r show ?thesis
      by (simp add: playRound_def roundEvents_def idle_fire practiceReady_def)
  next
    case (Some c)
    obtain cx cy where c: "c = (cx, cy)" by (cases c)
    let ?w = "w\<lparr>feedbackCell := Some (cx, cy, Win)\<rparr>"
    have st: "status (game w) = Playing" using r by (simp add: practiceReady_def)
    have p: "playRound rnd w result =
        run rnd (handleSuccess ?w) [FireTimeout 0, FireTimeout 0, FireTimeout 0]"
      using Win Some c st by (simp add: playRound_def roundEvents_def run_Cons step_click_win)
    have r': "practiceReady ?w" using r by simp
    show ?thesis unfolding p using practice_success[OF r', of rnd] r
      by (simp add: practiceReady_def)
  qed
next
  case Loss
  let ?c = "wrongCell w"
  let ?w = "w\<lparr>feedbackCell := Some (fst ?c, snd ?c, Loss)\<rparr>"
  have st: "status (game w) = Playing" using r by (simp add: practiceReady_def)
  have p: "playRound rnd w result =
      run rnd (handleFailure ?w) [FireTimeout 0, FireTimeout 0, FireTimeout 0]"
    using Loss st wrongCell_wrong[of w]
    by (simp add: playRound_def roundEvents_def run_Cons step_click_loss)
  have r': "practiceReady ?w" using r by simp
  show ?thesis unfolding p using practice_failure[OF r', of rnd] r
    by (simp add: practiceReady_def)
qed

lemma practice_rounds:
  "practiceReady w \<Longrightarrow>
     practiceReady (playRounds rnd w results) \<and>
     score (game (playRounds rnd w results)) = score (game w) \<and>
     stability (game (playRounds rnd w results)) = stability (game w) \<and>
     analytics (game (playRounds rnd w results)) = analytics (game w) \<and>
     currentLevel (game (playRounds rnd w results)) = currentLevel (game w) \<and>
     sessionCorrect (game (playRounds rnd w results)) = sessionCorrect (game w) \<and>
     sessionTotal (game (playRounds rnd w results)) = sessionTotal (game w)"
proof (induction results arbitrary: w)
  case Nil
  then show ?case by (simp add: playRounds_def)
next
  case (Cons a results)
  from practice_round[OF Cons.prems, of rnd a] have
    r: "practiceReady (playRound rnd w a)" and
    e: "score (game (playRound rnd w a)) = score (game w)"
       "stability (game (playRound rnd w a)) = stability (game w)"
       "analytics (game (playRound rnd w a)) = analytics (game w)"
       "currentLevel (game (playRound rnd w a)) = currentLevel (game w)"
       "sessionCorrect (game (playRound rnd w a)) = sessionCorrect (game w)"
       "sessionTotal (game (playRound rnd w a)) = sessionTotal (game w)"
    by simp_all
  have u: "playRounds rnd w (a # results) = playRounds rnd (playRound rnd w a) results"
    by (simp add: playRounds_def)
  show ?case unfolding u using Cons.IH[OF r] e by simp
qed

lemma practice_multiplier:
  assumes r: "practiceReady w"
  shows "targetPos w \<noteq> None \<Longrightarrow>
           multiplier (game (playRound rnd w Win)) = min (multiplier (game w) + 1 / 2) 5"
    and "multiplier (game (playRound rnd w Loss)) = 1"
proof -
  have st: "status (game w) = Playing" using r by (simp add: practiceReady_def)
  {
    assume "targetPos w \<noteq> None"
    then obtain cx cy where c: "targetPos w = Some (cx, cy)" by auto
    let ?w = "w\<lparr>feedbackCell := Some (cx, cy, Win)\<rparr>"
    have p: "playRound rnd w Win =
        run rnd (handleSuccess ?w) [FireTimeout 0, FireTimeout 0, FireTimeout 0]"
      using c st by (simp add: playRound_def roundEvents_def run_Cons step_click_win)
    have r': "practiceReady ?w" using r by simp
    show "multiplier (game (playRound rnd w Win)) = min (multiplier (game w) + 1 / 2) 5"
      unfolding p using practice_success[OF r', of rnd] by simp
  }
  let ?c = "wrongCell w"
  let ?w = "w\<lparr>feedbackCell := Some (fst ?c, snd ?c, Loss)\<rparr>"
  have p: "playRound rnd w Loss =
      run rnd (handleFailure ?w) [FireTimeout 0, FireTimeout 0, FireTimeout 0]"
    using st wrongCell_wrong[of w]
    by (simp add: playRound_def roundEvents_def run_Cons step_click_loss)
  have r': "practiceReady ?w" using r by simp
  show "multiplier (game (playRound rnd w Loss)) = 1"
    unfolding p using practice_failure[OF r', of rnd] by simp
qed

text \<open>
  Claim C3, as amended. In practice mode, from a playing state whose stability lies in
  [0, 100], every sequence of rounds won or lost leaves the score, the stability, every
  analytics tag counter and the level unchanged, and the game is again playing in practice
  mode. The multiplier is not frozen: a won round raises it by 0.5 up to 5 and a lost round
  resets it to 1, as outside practice mode.
\<close>

theorem practice_frozen:
  "practiceReady w \<Longrightarrow>
     score (game (playRounds rnd w results)) = score (game w) \<and>
     stability (game (playRounds rnd w results)) = stability (game w) \<and>
     tags (analytics (game (playRounds rnd w results))) = tags (analytics (game w)) \<and>
     currentLevel (game (playRounds rnd w results)) = currentLevel (game w) \<and>
     isPracticeMode (game (playRounds rnd w results)) \<and>
     status (game (playRounds rnd w results)) = Playing \<and>
     (targetPos w \<noteq> None \<longrightarrow>
        multiplier (game (playRound rnd w Win)) = min (multiplier (game w) + 1 / 2) 5) \<and>
     multiplier (game (playRound rnd w Loss)) = 1"
  using practice_rounds[of w rnd results] practice_multiplier[of w rnd]
  by (simp add: practiceReady_def)

theorem practice_frozen_witness:
  "practiceReady practiceWorld \<and>
   score (game (playRounds (\<lambda>_. 1 / 2) practiceWorld [Win, Loss])) = 0 \<and>
   stability (game (playRounds (\<lambda>_. 1 / 2) practiceWorld [Win, Loss])) = 50 \<and>
   tags (analytics (game (playRounds (\<lambda>_. 1 / 2) practiceWorld [Win, Loss]))) = (\<lambda>k. None) \<and>
   targetPos practiceWorld \<noteq> None \<and>
   multiplier (game (playRound (\<lambda>_. 1 / 2) practiceWorld Win)) = 3 / 2"
  using practice_frozen[of practiceWorld "\<lambda>_. 1 / 2" "[Win, Loss]"]
  by (simp add: practiceReady_def initialGame_def)

theorem practice_frozen_counterexample:
  "isPracticeMode (game practiceWorld) \<and> status (game practiceWorld) = Playing \<and>
   multiplier (game practiceWorld) = 1 \<and>
   multiplier (game (playRound (\<lambda>_. 1 / 2) practiceWorld Win)) = 3 / 2 \<and>
   multiplier (game (playRound (\<lambda>_. 1 / 2) practiceWorld Win)) \<noteq> multiplier (game practiceWorld)"
proof -
  have r: "practiceReady practiceWorld"
    by (simp add: practiceReady_def initialGame_def)
  show ?thesis using practice_multiplier(1)[OF r, of "\<lambda>_. 1 / 2"]
    by (simp add: initialGame_def)
qed

lemma handleFailure_handled:
  "handleFailure (w\<lparr>failureHandled := b\<rparr>) = (handleFailure w)\<lparr>failureHandled := b\<rparr>"
  by (simp add: handleFailure_def updateAnalytics_def Let_def split: prod.splits)

lemma handleFailure_timer:
  "handleFailure (w\<lparr>timer := t\<rparr>) = (handleFailure w)\<lparr>timer := t\<rparr>"
  by (simp add: handleFailure_def updateAnalytics_def Let_def split: prod.splits)

lemma handleFailure_flag [simp]: "failureHandled (handleFailure w) = failureHandled w"
  by (simp add: handleFailure_def updateAnalytics_def Let_def split: prod.splits)

lemma tick_after_failure:
  "failureHandled w \<Longrightarrow>
     game ((timerTick ^^ n) w) = game w \<and> scheduled ((timerTick ^^ n) w) = scheduled w \<and>
     failureHandled ((timerTick ^^ n) w)"
proof (induction n)
  case 0
  then show ?case by simp
next
  case (Suc n)
  then show ?case by (simp add: timerTick_def Let_def)
qed

lemma tick_at_zero:
  assumes "timer w \<le> 0" "\<not> failureHandled w"
  shows "game ((timerTick ^^ Suc n) w) = game (handleFailure w)"
    and "scheduled ((timerTick ^^ Suc n) w) = scheduled (handleFailure w)"
    and "failureHandled ((timerTick ^^ Suc n) w)"
proof -
  let ?w = "(handleFailure w)\<lparr>failureHandled := True, timer := 0\<rparr>"
  have t: "timerTick w = ?w" using assms by (simp add: timerTick_def Let_def handleFailure_handled)
  have f: "failureHandled ?w" by simp
  have "(timerTick ^^ Suc n) w = (timerTick ^^ n) ?w" by (simp add: funpow_swap1 t)
  with tick_after_failure[OF f, of n]
  show "game ((timerTick ^^ Suc n) w) = game (handleFailure w)"
    and "scheduled ((timerTick ^^ Suc n) w) = scheduled (handleFailure w)"
    and "failureHandled ((timerTick ^^ Suc n) w)" by simp_all
qed

lemma tick_at_most_once:
  "\<not> failureHandled w \<Longrightarrow>
     (game ((timerTick ^^ n) w) = game w \<and> scheduled ((timerTick ^^ n) w) = scheduled w) \<or>
     (game ((timerTick ^^ n) w) = game (handleFailure w) \<and>
      scheduled ((timerTick ^^ n) w) = scheduled (handleFailure w))"
proof (induction n arbitrary: w)
  case 0
  then show ?case by simp
next
  case (Suc n)
  show ?case
  proof (cases "timer w \<le> 0")
    case True
    then show ?thesis using tick_at_zero[OF True Suc.prems, of n] by simp
  next
    case False
    let ?w = "w\<lparr>timer := timer w - decay (currentLevel (game w))\<rparr>"
    have t: "timerTick w = ?w" using False by (simp add: timerTick_def)
    have n: "\<not> failureHandled ?w" using Suc.prems by simp
    have e: "(timerTick ^^ Suc n) w = (timerTick ^^ n) ?w" by (simp add: funpow_swap1 t)
    show ?thesis unfolding e using Suc.IH[OF n] by (simp add: handleFailure_timer)
  qed
qed

lemma statusEffect_resets:
  "status (game w) = Playing \<Longrightarrow> before \<noteq> Playing \<Longrightarrow> \<not> failureHandled (statusEffect before w)"
  by (simp add: statusEffect_def)

text \<open>
  Claim C4. A countdown cycle starts with the \<^verbatim>\<open>failureHandled\<close> ref cleared, which the
  status effect does whenever the status becomes \<^verbatim>\<open>playing\<close>. Within the cycle, once the
  timer is at or below zero, any number of ticks (one or more) leaves the game state and the
  timer queue exactly as one call of \<^verbatim>\<open>handleFailure\<close> leaves them; after that call no
  further tick changes them; and from the start of the cycle any number of ticks has applied
  the failure either not at all or exactly once.
\<close>

theorem timer_failure_once:
  "(timer w \<le> 0 \<and> \<not> failureHandled w \<longrightarrow>
      game ((timerTick ^^ Suc n) w) = game (handleFailure w) \<and>
      scheduled ((timerTick ^^ Suc n) w) = scheduled (handleFailure w) \<and>
      failureHandled ((timerTick ^^ Suc n) w)) \<and>
   (failureHandled w \<longrightarrow>
      game ((timerTick ^^ n) w) = game w \<and> scheduled ((timerTick ^^ n) w) = scheduled w) \<and>
   (\<not> failureHandled w \<longrightarrow>
      (game ((timerTick ^^ n) w) = game w \<and> scheduled ((timerTick ^^ n) w) = scheduled w) \<or>
      (game ((timerTick ^^ n) w) = game (handleFailure w) \<and>
       scheduled ((timerTick ^^ n) w) = scheduled (handleFailure w))) \<and>
   (status (game w) = Playing \<and> before \<noteq> Playing \<longrightarrow> \<not> failureHandled (statusEffect before w))"
  using tick_at_zero[of w n] tick_after_failure[of w n] tick_at_most_once[of w n]
    statusEffect_resets[of w before]
  by blast

theorem timer_failure_once_witness:
  "timer expiredWorld \<le> 0 \<and> \<not> failureHandled expiredWorld \<and>
   status (game expiredWorld) = Playing \<and>
   stability (game expiredWorld) = 50 \<and> sessionTotal (game expiredWorld) = 0 \<and>
   stability (game ((timerTick ^^ Suc 3) expiredWorld)) = 20 \<and>
   sessionTotal (game ((timerTick ^^ Suc 3) expiredWorld)) = 1 \<and>
   scheduled ((timerTick ^^ Suc 3) expiredWorld) = [FailureHold Playing 1 20] \<and>
   failureHandled ((timerTick ^^ Suc 3) expiredWorld) \<and>
   failureHandled (expiredWorld\<lparr>failureHandled := True\<rparr>) \<and>
   game ((timerTick ^^ 3) (expiredWorld\<lparr>failureHandled := True\<rparr>)) = game expiredWorld \<and>
   \<not> failureHandled (statusEffect Success_anim expiredWorld)"
  using timer_failure_once[of expiredWorld 3 Success_anim]
    timer_failure_once[of "expiredWorld\<lparr>failureHandled := True\<rparr>" 3 Success_anim]
  by (simp add: handleFailure_def failureOutcome_def updateAnalytics_def initialGame_def Let_def)


section \<open>Properties of the analytics engine\<close>

lemma bumpTag_attempts:
  "attemptsOf (bumpTag result k t) k' = attemptsOf t k' + (if k = k' then 1 else 0)"
  by (simp add: bumpTag_def attemptsOf_def Let_def split: option.splits)

lemma bumpTag_failures:
  "failuresOf (bumpTag result k t) k' =
     failuresOf t k' + (if k = k' \<and> result = Loss then 1 else 0)"
  by (simp add: bumpTag_def failuresOf_def Let_def split: option.splits)

lemma bumpTag_other: "k \<noteq> k' \<Longrightarrow> bumpTag result k t k' = t k'"
  by (simp add: bumpTag_def Let_def)

lemma keyHits_Nil [simp]: "keyHits [] k = 0"
  by (simp add: keyHits_def)

lemma keyHits_Cons:
  "keyHits (st # ch) k =
     (if protoKey st = k then 1 else 0) + (if frameKey st = k then 1 else 0) +
     (if complexKey st = k then 1 else 0) + keyHits ch k"
  by (simp add: keyHits_def)

lemma keyHits_nonneg: "0 \<le> keyHits ch k"
  by (simp add: keyHits_def)

lemma recordStep_attempts:
  "attemptsOf (recordStep result t st) k = attemptsOf t k + keyHits [st] k"
  by (simp add: recordStep_def bumpTag_attempts keyHits_Cons)

lemma recordStep_failures:
  "failuresOf (recordStep result t st) k =
     failuresOf t k + (if result = Loss then keyHits [st] k else 0)"
  by (simp add: recordStep_def bumpTag_failures keyHits_Cons)

lemma recordStep_other: "keyHits [st] k = 0 \<Longrightarrow> recordStep result t st k = t k"
  by (auto simp add: recordStep_def bumpTag_other keyHits_Cons split: if_splits)

lemma keyHits_step: "keyHits (st # ch) k = keyHits [st] k + keyHits ch k"
  by (simp add: keyHits_Cons)

lemma recordChain_attempts:
  "attemptsOf (recordChain result ch t) k = attemptsOf t k + keyHits ch k"
  unfolding recordChain_def
proof (induction ch arbitrary: t)
  case Nil
  then show ?case by simp
next
  case (Cons st ch)
  show ?case by (simp add: Cons.IH recordStep_attempts keyHits_step[of st ch])
qed

lemma recordChain_failures:
  "failuresOf (recordChain result ch t) k =
     failuresOf t k + (if result = Loss then keyHits ch k else 0)"
  unfolding recordChain_def
proof (induction ch arbitrary: t)
  case Nil
  then show ?case by simp
next
  case (Cons st ch)
  show ?case by (simp add: Cons.IH recordStep_failures keyHits_step[of st ch])
qed

lemma recordChain_other: "keyHits ch k = 0 \<Longrightarrow> recordChain result ch t k = t k"
  unfolding recordChain_def
proof (induction ch arbitrary: t)
  case Nil
  then show ?case by simp
next
  case (Cons st ch)
  have "keyHits [st] k = 0 \<and> keyHits ch k = 0"
    using Cons.prems keyHits_nonneg[of "[st]" k] keyHits_nonneg[of ch k]
    by (simp add: keyHits_step[of st ch])
  then show ?case by (simp add: Cons.IH recordStep_other)
qed

lemma protocolName_inj: "protocolName p = protocolName p' \<longleftrightarrow> p = p'"
  by (cases p; cases p'; simp add: protocolName_def)

lemma frameName_inj: "frameName f = frameName f' \<longleftrightarrow> f = f'"
  by (cases f; cases f'; simp add: frameName_def)

lemma directionName_inj: "directionName d = directionName d' \<longleftrightarrow> d = d'"
  by (cases d; cases d'; simp add: directionName_def)

lemma protocol_frame_disjoint: "protocolName p \<noteq> frameName f"
  by (cases p; cases f; simp add: protocolName_def frameName_def)

lemma protocolName_no_space: "CHR '' '' \<notin> set (protocolName p)"
  by (cases p; simp add: protocolName_def)

lemma frameName_no_space: "CHR '' '' \<notin> set (frameName f)"
  by (cases f; simp add: frameName_def)

lemma directionName_no_space: "CHR '' '' \<notin> set (directionName d)"
  by (cases d; simp add: directionName_def)

lemma split_at_space:
  assumes "c \<notin> set a" "c \<notin> set a'" "a @ c # b = a' @ c # b'"
  shows "a = a' \<and> b = b'"
proof -
  have t: "\<And>xs ys. c \<notin> set xs \<Longrightarrow> takeWhile (\<lambda>x. x \<noteq> c) (xs @ c # ys) = xs"
  proof -
    fix xs ys show "c \<notin> set xs \<Longrightarrow> takeWhile (\<lambda>x. x \<noteq> c) (xs @ c # ys) = xs"
      by (induction xs) auto
  qed
  have "takeWhile (\<lambda>x. x \<noteq> c) (a @ c # b) = a" using assms(1) by (rule t)
  moreover have "takeWhile (\<lambda>x. x \<noteq> c) (a' @ c # b') = a'" using assms(2) by (rule t)
  ultimately have "a = a'" using assms(3) by simp
  with assms(3) show ?thesis by simp
qed

lemma protoKey_inj: "protoKey st = protoKey st' \<longleftrightarrow> protocol st = protocol st'"
  by (simp add: protoKey_def protocolName_inj)

lemma frameKey_inj: "frameKey st = frameKey st' \<longleftrightarrow> frame st = frame st'"
  by (simp add: frameKey_def frameName_inj)

lemma complexKey_inj:
  "complexKey st = complexKey st' \<longleftrightarrow> protocol st = protocol st' \<and> dir st = dir st'"
proof
  assume "complexKey st = complexKey st'"
  then have "protocolName (protocol st) @ CHR '' '' # directionName (dir st) =
      protocolName (protocol st') @ CHR '' '' # directionName (dir st')"
    by (simp add: complexKey_def)
  from split_at_space[OF protocolName_no_space protocolName_no_space this]
  show "protocol st = protocol st' \<and> dir st = dir st'"
    by (simp add: protocolName_inj directionName_inj)
next
  assume "protocol st = protocol st' \<and> dir st = dir st'"
  then show "complexKey st = complexKey st'" by (simp add: complexKey_def)
qed

lemma complexKey_space: "CHR '' '' \<in> set (complexKey st)"
  by (simp add: complexKey_def)

lemma keys_disjoint:
  "protoKey st \<noteq> frameKey st'" "protoKey st \<noteq> complexKey st'" "frameKey st \<noteq> complexKey st'"
proof -
  show "protoKey st \<noteq> frameKey st'" by (simp add: protoKey_def frameKey_def protocol_frame_disjoint)
  show "protoKey st \<noteq> complexKey st'"
    using complexKey_space[of st'] protocolName_no_space[of "protocol st"]
    unfolding protoKey_def by metis
  show "frameKey st \<noteq> complexKey st'"
    using complexKey_space[of st'] frameName_no_space[of "frame st"]
    unfolding frameKey_def by metis
qed

lemma keyHits_single:
  "keyHits [st] (protoKey st) = 1" "keyHits [st] (frameKey st) = 1" "keyHits [st] (complexKey st) = 1"
  "k \<noteq> protoKey st \<Longrightarrow> k \<noteq> frameKey st \<Longrightarrow> k \<noteq> complexKey st \<Longrightarrow> keyHits [st] k = 0"
  using keys_disjoint[of st st] keys_disjoint(1)[of st st, symmetric]
    keys_disjoint(2)[of st st, symmetric] keys_disjoint(3)[of st st, symmetric]
  by (auto simp add: keyHits_Cons)

lemma updateAnalytics_tags:
  "\<not> isPracticeMode (game w) \<Longrightarrow>
     tags (analytics (game (updateAnalytics result w))) =
       recordChain result (chain w) (tags (analytics (game w)))"
  by (simp add: updateAnalytics_def)

text \<open>
  Claim C8. Recording a chain raises the attempts of every key by the number of times the
  key is the protocol key, the frame key or the compound key of a step of the chain, raises
  the failures by the same number when the outcome is a loss and leaves them alone on a win,
  and leaves every other entry untouched. One step counts under exactly three keys. The
  keys do not collide: each family is injective in what it names (the protocol, the frame,
  the protocol and direction) and no key of one family is a key of another. Outside
  practice mode \<^verbatim>\<open>updateAnalytics\<close> records the current chain in this way.
\<close>

theorem analytics_tags:
  "attemptsOf (recordChain result ch t) k = attemptsOf t k + keyHits ch k \<and>
   failuresOf (recordChain result ch t) k =
     failuresOf t k + (if result = Loss then keyHits ch k else 0) \<and>
   (keyHits ch k = 0 \<longrightarrow> recordChain result ch t k = t k) \<and>
   keyHits [st] (protoKey st) = 1 \<and> keyHits [st] (frameKey st) = 1 \<and>
   keyHits [st] (complexKey st) = 1 \<and>
   (k \<noteq> protoKey st \<and> k \<noteq> frameKey st \<and> k \<noteq> complexKey st \<longrightarrow> keyHits [st] k = 0) \<and>
   (protoKey st = protoKey st' \<longleftrightarrow> protocol st = protocol st') \<and>
   (frameKey st = frameKey st' \<longleftrightarrow> frame st = frame st') \<and>
   (complexKey st = complexKey st' \<longleftrightarrow> protocol st = protocol st' \<and> dir st = dir st') \<and>
   protoKey st \<noteq> frameKey st' \<and> protoKey st \<noteq> complexKey st' \<and> frameKey st \<noteq> complexKey st' \<and>
   (\<not> isPracticeMode (game w) \<longrightarrow>
      tags (analytics (game (updateAnalytics result w))) =
        recordChain result (chain w) (tags (analytics (game w))))"
  using recordChain_attempts[of result ch t k] recordChain_failures[of result ch t k]
    recordChain_other[of ch k result t] keyHits_single(1-3)[of st] keyHits_single(4)[of k st] protoKey_inj[of st st']
    frameKey_inj[of st st'] complexKey_inj[of st st'] keys_disjoint[of st st']
    updateAnalytics_tags[of w result]
  by blast

theorem analytics_tags_witness:
  "keyHits (newChain failsafe) ''INVERTED'' = 0 \<and>
   recordChain Loss (newChain failsafe) (\<lambda>k. None) ''INVERTED'' = None \<and>
   attemptsOf (recordChain Loss (newChain failsafe) (\<lambda>k. None)) ''DIRECT NORTH'' = 1 \<and>
   failuresOf (recordChain Loss (newChain failsafe) (\<lambda>k. None)) ''DIRECT NORTH'' = 1 \<and>
   failuresOf (recordChain Win (newChain failsafe) (\<lambda>k. None)) ''DIRECT NORTH'' = 0 \<and>
   ''RELATIVE'' \<noteq> protoKey (hd (newChain failsafe)) \<and>
   ''RELATIVE'' \<noteq> frameKey (hd (newChain failsafe)) \<and>
   ''RELATIVE'' \<noteq> complexKey (hd (newChain failsafe)) \<and>
   keyHits [hd (newChain failsafe)] ''RELATIVE'' = 0 \<and>
   \<not> isPracticeMode (game expiredWorld) \<and>
   attemptsOf (tags (analytics (game (updateAnalytics Loss expiredWorld)))) ''ABSOLUTE'' = 1"
  using analytics_tags[of Loss "newChain failsafe" "\<lambda>k. None" "''INVERTED''"
      "hd (newChain failsafe)" "hd (newChain failsafe)" expiredWorld]
    analytics_tags[of Loss "newChain failsafe" "\<lambda>k. None" "''DIRECT NORTH''"
      "hd (newChain failsafe)" "hd (newChain failsafe)" expiredWorld]
    analytics_tags[of Win "newChain failsafe" "\<lambda>k. None" "''DIRECT NORTH''"
      "hd (newChain failsafe)" "hd (newChain failsafe)" expiredWorld]
    analytics_tags[of Loss "newChain failsafe" "\<lambda>k. None" "''RELATIVE''"
      "hd (newChain failsafe)" "hd (newChain failsafe)" expiredWorld]
    analytics_tags[of Loss "newChain failsafe" "\<lambda>k. None" "''ABSOLUTE''"
      "hd (newChain failsafe)" "hd (newChain failsafe)" expiredWorld]
  by (simp add: failsafe_def keyHits_def protoKey_def frameKey_def complexKey_def protocolName_def
      frameName_def directionName_def attemptsOf_def failuresOf_def initialGame_def)


section \<open>Properties of the manual level entry\<close>

lemma manualSetLevel_unchanged:
  "input = None \<or> input = Some [] \<or> (\<exists>s. input = Some s \<and> parseInt s = None) \<or>
   (\<exists>s n. input = Some s \<and> parseInt s = Some n \<and> (n < 1 \<or> 99 < n)) \<Longrightarrow>
   manualSetLevel input w = w"
  by (auto simp: manualSetLevel_def split: option.splits)

lemma manualSetLevel_accepts:
  "parseInt s = Some n \<Longrightarrow> 1 \<le> n \<Longrightarrow> n \<le> 99 \<Longrightarrow>
   manualSetLevel (Some s) w =
     w\<lparr>game := (game w)\<lparr>currentLevel := n, maxLevel := max (maxLevel (game w)) n, score := 0\<rparr>\<rparr>"
  by (auto simp: manualSetLevel_def parseInt_def Let_def split: option.splits)

lemma of_char_digitChar: "d < 10 \<Longrightarrow> (of_char (digitChar d) :: nat) = 48 + d"
  by (simp add: digitChar_def)

lemma digitValue_digitChar: "d < 10 \<Longrightarrow> digitValue (digitChar d) = Some d"
  by (simp add: digitValue_def of_char_digitChar Let_def)

lemma digitChar_neq: "d < 10 \<Longrightarrow> (of_char c :: nat) < 48 \<or> 57 < (of_char c :: nat) \<Longrightarrow> digitChar d \<noteq> c"
proof
  assume d: "d < 10" and c: "(of_char c :: nat) < 48 \<or> 57 < (of_char c :: nat)" and e: "digitChar d = c"
  have "(of_char c :: nat) = 48 + d" using of_char_digitChar[OF d] e by simp
  with c d show False by simp
qed

lemma digitChar_not_space: "d < 10 \<Longrightarrow> \<not> isWhiteSpace (digitChar d)"
  by (simp add: isWhiteSpace_def of_char_digitChar)

lemma digitChar_plain:
  "d < 10 \<Longrightarrow> digitChar d \<noteq> CHR ''-'' \<and> digitChar d \<noteq> CHR ''+''
     \<and> digitChar d \<noteq> CHR ''x'' \<and> digitChar d \<noteq> CHR ''X''"
  by (simp add: digitChar_neq)

lemma natString_digits: "c \<in> set (natString n) \<Longrightarrow> \<exists>d<10. c = digitChar d"
proof (induction n rule: natString.induct)
  case (1 n)
  show ?case
  proof (cases "n < 10")
    case True
    with "1.prems" show ?thesis by (auto simp: natString.simps[of n])
  next
    case False
    with "1.prems" have "c \<in> set (natString (n div 10)) \<or> c = digitChar (n mod 10)"
      by (auto simp: natString.simps[of n])
    then show ?thesis
    proof
      assume "c \<in> set (natString (n div 10))"
      with "1.IH" False show ?thesis by simp
    next
      assume "c = digitChar (n mod 10)"
      moreover have "n mod 10 < 10" by simp
      ultimately show ?thesis by blast
    qed
  qed
qed

lemma natString_nonempty: "natString n \<noteq> []"
  by (cases "n < 10") (simp_all add: natString.simps[of n])

lemma natString_scan:
  "\<exists>ds. ds \<noteq> [] \<and> (\<forall>rest. radixDigits 10 (natString n @ rest) = ds @ radixDigits 10 rest) \<and>
        foldl (\<lambda>acc v. acc * 10 + v) 0 ds = n"
proof (induction n rule: natString.induct)
  case (1 n)
  show ?case
  proof (cases "n < 10")
    case True
    then have "\<forall>rest. radixDigits 10 (natString n @ rest) = [n] @ radixDigits 10 rest"
      by (simp add: natString.simps[of n] digitValue_digitChar)
    then show ?thesis by (intro exI[of _ "[n]"]) simp
  next
    case False
    with "1.IH" obtain ds where ds: "ds \<noteq> []"
      "\<forall>rest. radixDigits 10 (natString (n div 10) @ rest) = ds @ radixDigits 10 rest"
      "foldl (\<lambda>acc v. acc * 10 + v) 0 ds = n div 10" by auto
    have m: "n mod 10 < 10" by simp
    have "\<forall>rest. radixDigits 10 (natString n @ rest) = (ds @ [n mod 10]) @ radixDigits 10 rest"
      using False ds(2) m by (simp add: natString.simps[of n] digitValue_digitChar)
    moreover have "foldl (\<lambda>acc v. acc * 10 + v) 0 (ds @ [n mod 10]) = n"
      using ds(3) by simp
    ultimately show ?thesis by (intro exI[of _ "ds @ [n mod 10]"]) simp
  qed
qed

lemma natString_no_hex: "take 2 (natString n) \<noteq> ''0x''" "take 2 (natString n) \<noteq> ''0X''"
proof -
  have nox: "c = CHR ''x'' \<or> c = CHR ''X'' \<Longrightarrow> c \<notin> set (natString n)" for c
  proof
    assume c: "c = CHR ''x'' \<or> c = CHR ''X''" and "c \<in> set (natString n)"
    then obtain d where d: "d < 10" "c = digitChar d" using natString_digits by blast
    from digitChar_plain[OF d(1)] d(2) c show False by auto
  qed
  have sub: "set (take 2 (natString n)) \<subseteq> set (natString n)" by (rule set_take_subset)
  show "take 2 (natString n) \<noteq> ''0x''"
  proof
    assume "take 2 (natString n) = ''0x''"
    then have "CHR ''x'' \<in> set (take 2 (natString n))" by simp
    with sub nox[of "CHR ''x''"] show False by blast
  qed
  show "take 2 (natString n) \<noteq> ''0X''"
  proof
    assume "take 2 (natString n) = ''0X''"
    then have "CHR ''X'' \<in> set (take 2 (natString n))" by simp
    with sub nox[of "CHR ''X''"] show False by blast
  qed
qed

lemma natString_radix:
  "radixDigits 10 (natString n) \<noteq> []"
  "foldl (\<lambda>acc v. acc * 10 + v) 0 (radixDigits 10 (natString n)) = n"
proof -
  obtain ds where ds: "ds \<noteq> []"
    "\<forall>rest. radixDigits 10 (natString n @ rest) = ds @ radixDigits 10 rest"
    "foldl (\<lambda>acc v. acc * 10 + v) 0 ds = n" using natString_scan by blast
  from ds(2) have "radixDigits 10 (natString n @ []) = ds @ radixDigits 10 []" by blast
  then have e: "radixDigits 10 (natString n) = ds" by simp
  show "radixDigits 10 (natString n) \<noteq> []" using e ds(1) by simp
  show "foldl (\<lambda>acc v. acc * 10 + v) 0 (radixDigits 10 (natString n)) = n" using e ds(3) by simp
qed

lemma natString_head: "\<exists>d<10. \<exists>cs. natString n = digitChar d # cs"
proof -
  obtain c cs where c: "natString n = c # cs" using natString_nonempty by (cases "natString n") auto
  then have "c \<in> set (natString n)" by simp
  with natString_digits c show ?thesis by blast
qed

lemma parseInt_natString: "parseInt (natString n) = Some (int n)"
proof -
  obtain d cs where h: "d < 10" "natString n = digitChar d # cs" using natString_head by blast
  have dw: "dropWhile isWhiteSpace (natString n) = natString n"
    using h digitChar_not_space by simp
  have sg: "digitChar d \<noteq> CHR ''-''" "digitChar d \<noteq> CHR ''+''" using digitChar_plain[OF h(1)] by simp_all
  have c: "(case natString n of [] \<Rightarrow> (1::int, natString n)
            | c # cs \<Rightarrow> if c = CHR ''-'' then (- 1, cs) else if c = CHR ''+'' then (1, cs) else (1, natString n))
           = (1, natString n)"
    using sg by (simp add: h(2))
  show ?thesis
    unfolding parseInt_def dw Let_def c
    by (simp add: natString_no_hex natString_radix)
qed

lemma parseInt_neg_natString: "parseInt (CHR ''-'' # natString n) = Some (- int n)"
proof -
  have nw: "\<not> isWhiteSpace (CHR ''-'')" by (simp add: isWhiteSpace_def)
  then have dw: "dropWhile isWhiteSpace (CHR ''-'' # natString n) = CHR ''-'' # natString n" by simp
  show ?thesis
    unfolding parseInt_def dw Let_def
    by (simp add: natString_no_hex natString_radix)
qed

lemma parseInt_intString: "parseInt (intString k) = Some k"
  by (simp add: intString_def parseInt_natString parseInt_neg_natString)

text \<open>
  Claim C9, as amended. \<^verbatim>\<open>manualSetLevel\<close> leaves the state unchanged when the prompt
  is cancelled or empty, or when \<^verbatim>\<open>parseInt\<close> of the input is \<^verbatim>\<open>NaN\<close> or lies outside
  [1, 99]. When \<^verbatim>\<open>parseInt\<close> of the input is an integer n in [1, 99], the level becomes n,
  the record level is raised to n if it was lower, and the score is reset to 0. The decimal
  numeral of an integer parses to that integer, so the numeral of n in [1, 99] sets the
  level to n and the numeral of any other integer is ignored. Since \<^verbatim>\<open>parseInt\<close> reads the
  longest integer prefix, an input that is not an integer, such as 3.7, is accepted too.
\<close>

theorem manualSetLevel_parseInt:
  "(input = None \<or> input = Some [] \<or> (\<exists>s. input = Some s \<and> parseInt s = None) \<or>
    (\<exists>s m. input = Some s \<and> parseInt s = Some m \<and> (m < 1 \<or> 99 < m))
      \<longrightarrow> manualSetLevel input w = w) \<and>
   (parseInt s = Some n \<and> 1 \<le> n \<and> n \<le> 99 \<longrightarrow>
      manualSetLevel (Some s) w =
        w\<lparr>game := (game w)\<lparr>currentLevel := n, maxLevel := max (maxLevel (game w)) n,
              score := 0\<rparr>\<rparr>) \<and>
   parseInt (intString k) = Some k \<and>
   (1 \<le> k \<and> k \<le> 99 \<longrightarrow> currentLevel (game (manualSetLevel (Some (intString k)) w)) = k) \<and>
   (k < 1 \<or> 99 < k \<longrightarrow> manualSetLevel (Some (intString k)) w = w)"
proof -
  have a: "1 \<le> k \<and> k \<le> 99 \<longrightarrow> currentLevel (game (manualSetLevel (Some (intString k)) w)) = k"
    using manualSetLevel_accepts[OF parseInt_intString, of k w] by simp
  have b: "k < 1 \<or> 99 < k \<longrightarrow> manualSetLevel (Some (intString k)) w = w"
    using manualSetLevel_unchanged[of "Some (intString k)" w] parseInt_intString[of k] by blast
  show ?thesis
    using manualSetLevel_unchanged[of input w] manualSetLevel_accepts[of s n w]
      parseInt_intString[of k] a b
    by blast
qed

lemma intString_42: "intString 42 = ''42''"
  by code_simp

lemma intString_100: "intString 100 = ''100''"
  by code_simp

lemma parseInt_examples:
  "parseInt ''abc'' = None" "parseInt ''42'' = Some 42" "parseInt ''3.7'' = Some 3"
  by (simp_all add: parseInt_def isWhiteSpace_def digitValue_def Let_def)

theorem manualSetLevel_parseInt_witness:
  "parseInt ''abc'' = None \<and> manualSetLevel (Some ''abc'') initialWorld = initialWorld \<and>
   parseInt ''42'' = Some 42 \<and> intString 42 = ''42'' \<and>
   currentLevel (game (manualSetLevel (Some ''42'') initialWorld)) = 42 \<and>
   maxLevel (game (manualSetLevel (Some ''42'') initialWorld)) = 42 \<and>
   intString 100 = ''100'' \<and> manualSetLevel (Some ''100'') initialWorld = initialWorld"
  using manualSetLevel_parseInt[of "Some ''abc''" initialWorld "''42''" 42 42]
    manualSetLevel_parseInt[of "Some ''abc''" initialWorld "''42''" 42 100]
  by (simp add: parseInt_examples intString_42 intString_100 initialWorld_def initialGame_def)

theorem manualSetLevel_parseInt_counterexample:
  "parseInt ''3.7'' = Some 3 \<and>
   currentLevel (game initialWorld) = 1 \<and>
   currentLevel (game (manualSetLevel (Some ''3.7'') initialWorld)) = 3 \<and>
   manualSetLevel (Some ''3.7'') initialWorld \<noteq> initialWorld"
proof -
  have a: "currentLevel (game (manualSetLevel (Some ''3.7'') initialWorld)) = 3"
    by (simp add: manualSetLevel_def parseInt_examples)
  moreover have b: "currentLevel (game initialWorld) = 1"
    by (simp add: initialWorld_def initialGame_def)
  ultimately have "manualSetLevel (Some ''3.7'') initialWorld \<noteq> initialWorld" by auto
  with a b show ?thesis by (simp add: parseInt_examples)
qed

end
